theory Spec2Isabelle
  imports Main "HOL-Library.Finite_Map"
begin

section \<open>JSON documents\<close>

text \<open>
  A dashboard's \<open>Data\<close> is a simplejson document: a tree of Go values
  (\<open>nil\<close>, \<open>bool\<close>, numbers, \<open>string\<close>, \<open>[]interface{}\<close>,
  \<open>map[string]interface{}\<close>). Values are kept up to their JSON encoding:
  \<open>JNum n\<close> is an integer (a \<open>json.Number\<close> with a decimal integer literal, or a Go
  integer such as the \<open>int64\<close> that lines 94 and 129 store), \<open>JDec s\<close> a number whose
  literal \<open>s\<close> has a fraction or an exponent, and \<open>JNull\<close> is \<open>nil\<close> (a nil map
  stored in a document also encodes as \<open>null\<close>). Go maps are unordered with unique
  keys, hence finite maps. Binary floating-point values are outside the model.
\<close>

datatype json =
    JNull
  | JBool bool
  | JNum int
  | JDec string
  | JStr string
  | JArr "json list"
  | JObj "(string, json) fmap"

text \<open>
  Modelled from the spec: the package \<open>simplejson\<close> is not among the sources. Its
  accessors never fail; they are written as the call sites of lines 58-137 and the
  specification use them ("obtain the panel-entry array; if absent, no-op", an id
  "defaulting to the entry's array index if absent", a reference that an entry "has" or
  has not). \<open>Get\<close> of a missing key, or on a value that is no object, wraps \<open>nil\<close>;
  each \<open>Must...\<close> accessor yields its default (the zero value, or the argument given)
  when the value is absent or of another type; \<open>Set\<close> and \<open>SetIndex\<close> do nothing
  on a value that is no object, respectively no array or too short an array.
\<close>

definition NewFromAny :: "json \<Rightarrow> json" where
  "NewFromAny data = data"

definition Interface :: "json \<Rightarrow> json" where
  "Interface j = j"

definition Get :: "string \<Rightarrow> json \<Rightarrow> json" where
  "Get key j =
     (case j of
        JObj m \<Rightarrow> (case fmlookup m key of Some val \<Rightarrow> val | None \<Rightarrow> JNull)
      | _ \<Rightarrow> JNull)"

definition GetIndex :: "nat \<Rightarrow> json \<Rightarrow> json" where
  "GetIndex index j =
     (case j of
        JArr a \<Rightarrow> (if index < length a then a ! index else JNull)
      | _ \<Rightarrow> JNull)"

definition MustArray :: "json \<Rightarrow> json list" where
  "MustArray j = (case j of JArr a \<Rightarrow> a | _ \<Rightarrow> [])"

definition MustString :: "json \<Rightarrow> string" where
  "MustString j = (case j of JStr s \<Rightarrow> s | _ \<Rightarrow> [])"

definition MustMap :: "json \<Rightarrow> json" where
  "MustMap j = (case j of JObj m \<Rightarrow> JObj m | _ \<Rightarrow> JNull)"

definition MustInt64 :: "int \<Rightarrow> json \<Rightarrow> int" where
  "MustInt64 def j =
     (case j of
        JNum n \<Rightarrow> (if - (2 ^ 63) \<le> n \<and> n < 2 ^ 63 then n else def)
      | _ \<Rightarrow> def)"

definition Set :: "string \<Rightarrow> json \<Rightarrow> json \<Rightarrow> json" where
  "Set key val j = (case j of JObj m \<Rightarrow> JObj (fmupd key val m) | _ \<Rightarrow> j)"

definition SetIndex :: "nat \<Rightarrow> json \<Rightarrow> json \<Rightarrow> json" where
  "SetIndex index val j =
     (case j of
        JArr a \<Rightarrow> (if index < length a then JArr (a[index := val]) else j)
      | _ \<Rightarrow> j)"

text \<open>
  \<open>Get\<close> and \<open>GetIndex\<close> hand out the Go value they find, not a copy: a write
  through \<open>d.Get(key)\<close> or \<open>a.GetIndex(i)\<close> is a write into \<open>d\<close>, respectively
  \<open>a\<close>. With values instead of references, the write is carried back along the path.
\<close>

definition at_key :: "string \<Rightarrow> (json \<Rightarrow> json) \<Rightarrow> json \<Rightarrow> json" where
  "at_key key f j =
     (case j of
        JObj m \<Rightarrow> (case fmlookup m key of Some val \<Rightarrow> JObj (fmupd key (f val) m) | None \<Rightarrow> j)
      | _ \<Rightarrow> j)"

definition at_index :: "nat \<Rightarrow> (json \<Rightarrow> json) \<Rightarrow> json \<Rightarrow> json" where
  "at_index index f j =
     (case j of
        JArr a \<Rightarrow> (if index < length a then JArr (a[index := f (a ! index)]) else j)
      | _ \<Rightarrow> j)"

section \<open>Dashboards, library panels and the service\<close>

record Dashboard =
  Id_dash :: int
  Uid :: string
  Data :: json

text \<open>
  \<open>setting.Cfg\<close> is not among the sources; of it the service only asks
  \<open>IsPanelLibraryEnabled()\<close>, taken here as a field.
\<close>

record Cfg =
  IsPanelLibraryEnabled :: bool

record LibraryPanelService =
  Cfg :: "Cfg option"

record ReqContext =
  UserId :: int
  OrgId :: int

datatype error =
    ErrNoUid              \<comment> \<open>"found a library panel without uid"\<close>
  | ErrNoName             \<comment> \<open>"found a library panel without name"\<close>
  | ErrNotConnected       \<comment> \<open>"found a library panel that does not exists as a connection"\<close>
  | ErrMarshal            \<comment> \<open>"could not marshal library panel JSON: ..."\<close>
  | ErrConvert            \<comment> \<open>"could not convert library panel to JSON: ..."\<close>
  | ErrMissingID          \<comment> \<open>"dashboard is missing an ID or uid"\<close>
  | ErrStore              \<comment> \<open>a failed read or write of the database\<close>
  | ErrPanelNotFound      \<comment> \<open>no library panel with the uid to connect\<close>

text \<open>
  Modelled from the spec: the declaration of a library panel row is not among the
  sources. The spec (section 3) gives it an internal and an external identifier, an
  organization, a folder, a name and an opaque content blob. Lines 78-86 marshal the
  blob and decode the bytes again, and either step may fail; a stored blob is
  represented by what the two steps make of it.
\<close>

datatype RawMessage =
    Blob json           \<comment> \<open>bytes that decode to this document\<close>
  | NotJSON             \<comment> \<open>bytes that \<open>simplejson.NewJson\<close> rejects\<close>
  | Unmarshalable       \<comment> \<open>a value whose \<open>MarshalJSON\<close> fails\<close>

datatype bytes = Encoded json | Garbage

definition MarshalJSON :: "RawMessage \<Rightarrow> error + bytes" where
  "MarshalJSON raw =
     (case raw of
        Blob j \<Rightarrow> Inr (Encoded j)
      | NotJSON \<Rightarrow> Inr Garbage
      | Unmarshalable \<Rightarrow> Inl ErrMarshal)"

definition NewJson :: "bytes \<Rightarrow> error + json" where
  "NewJson body = (case body of Encoded j \<Rightarrow> Inr j | Garbage \<Rightarrow> Inl ErrConvert)"

record LibraryPanel =
  ID :: int
  OrgID :: int
  FolderID :: int
  UID :: string
  Name :: string
  Model :: RawMessage

text \<open>
  Modelled from the spec: the Reference Store (sections 3 and 6) holds the table
  \<open>library_panel\<close> and the link table \<open>library_panel_dashboard\<close>, whose rows name
  a library panel, a dashboard and the creating actor (row ids and timestamps are left
  out). A read or write fails when the database does not answer (\<open>online\<close> is false).
  Every call the service makes to the store is recorded in \<open>accesses\<close>, so that "the
  store is not touched" is a statement about the returned store.
\<close>

record LinkRow =
  librarypanel_id :: int
  dashboard_id :: int
  created_by :: int

datatype access = FetchLinkedPanels int | UpsertLink string int

record SQLStore =
  library_panel :: "LibraryPanel list"
  library_panel_dashboard :: "LinkRow list"
  online :: bool
  accesses :: "access list"

definition linked_to :: "SQLStore \<Rightarrow> int \<Rightarrow> LibraryPanel \<Rightarrow> bool" where
  "linked_to store dashboardID p =
     (\<exists>r \<in> set (library_panel_dashboard store).
        librarypanel_id r = ID p \<and> dashboard_id r = dashboardID)"

text \<open>
  Modelled from the spec: \<open>getLibraryPanelsForDashboardID\<close> is not among the
  sources. Section 4.1: one batched read that returns, keyed by external identifier, the
  library panel of every link row of the dashboard; an empty mapping when there is none;
  a store error when the read fails.
\<close>

definition linked_panels :: "SQLStore \<Rightarrow> int \<Rightarrow> (string \<rightharpoonup> LibraryPanel)" where
  "linked_panels store dashboardID =
     map_of (map (\<lambda>p. (UID p, p)) (filter (linked_to store dashboardID) (library_panel store)))"

definition getLibraryPanelsForDashboardID ::
  "SQLStore \<Rightarrow> int \<Rightarrow> (error + (string \<rightharpoonup> LibraryPanel)) \<times> SQLStore" where
  "getLibraryPanelsForDashboardID store dashboardID =
     (let store' = store\<lparr>accesses := accesses store @ [FetchLinkedPanels dashboardID]\<rparr>
      in if \<not> online store then (Inl ErrStore, store')
         else (Inr (linked_panels store dashboardID), store'))"

text \<open>
  Modelled from the spec: \<open>connectDashboard\<close> is not among the sources. Sections 4.4
  and 6: an idempotent upsert of the link row (referenced library panel, dashboard),
  created by the acting user; a pair that is already linked is left as it is, with no
  error. The panel is found by its external identifier; a uid that names no library
  panel, or a database that does not answer, is an error.
\<close>

definition connectDashboard ::
  "ReqContext \<Rightarrow> string \<Rightarrow> int \<Rightarrow> SQLStore \<Rightarrow> error option \<times> SQLStore" where
  "connectDashboard c uid dashboardID store =
     (let store' = store\<lparr>accesses := accesses store @ [UpsertLink uid dashboardID]\<rparr>
      in if \<not> online store then (Some ErrStore, store')
         else case find (\<lambda>p. UID p = uid) (library_panel store) of
                None \<Rightarrow> (Some ErrPanelNotFound, store')
              | Some p \<Rightarrow>
                  if linked_to store dashboardID p then (None, store')
                  else (None, store'\<lparr>library_panel_dashboard :=
                          library_panel_dashboard store @
                            [\<lparr>librarypanel_id = ID p, dashboard_id = dashboardID,
                              created_by = UserId c\<rparr>]\<rparr>))"

section \<open>The service\<close>

text \<open>\<open>IsEnabled\<close>, lines 39-45.\<close>

definition IsEnabled :: "LibraryPanelService \<Rightarrow> bool" where
  "IsEnabled lps = (case Cfg lps of None \<Rightarrow> False | Some cfg \<Rightarrow> IsPanelLibraryEnabled cfg)"

text \<open>
  The two statements that write into the dashboard through the shared panel array:
  \<open>dash.Data.Get("panels").SetIndex(i, val)\<close> and
  \<open>dash.Data.Get("panels").GetIndex(i).Set(key, val)\<close>.
\<close>

definition panels_SetIndex :: "nat \<Rightarrow> json \<Rightarrow> Dashboard \<Rightarrow> Dashboard" where
  "panels_SetIndex i val dash = dash\<lparr>Data := at_key ''panels'' (SetIndex i val) (Data dash)\<rparr>"

definition panels_elem_Set :: "nat \<Rightarrow> string \<Rightarrow> json \<Rightarrow> Dashboard \<Rightarrow> Dashboard" where
  "panels_elem_Set i key val dash =
     dash\<lparr>Data := at_key ''panels'' (at_index i (Set key val)) (Data dash)\<rparr>"

text \<open>
  The body of the loop of \<open>LoadLibraryPanelsForDashboard\<close>, lines 60-98, for the
  entry \<open>panel\<close> at index \<open>i\<close>: \<open>Inl\<close> is the error returned, \<open>Inr\<close> the dashboard
  with which the loop goes on.
\<close>

definition load_panel ::
  "(string \<rightharpoonup> LibraryPanel) \<Rightarrow> nat \<Rightarrow> json \<Rightarrow> Dashboard \<Rightarrow> error + Dashboard" where
  "load_panel libraryPanels i panel dash =
     (let panelAsJSON = NewFromAny panel;
          libraryPanel = Get ''libraryPanel'' panelAsJSON
      in if Interface libraryPanel = JNull then Inr dash
         else
           let uid = MustString (Get ''uid'' libraryPanel)
           in if length uid = 0 then Inl ErrNoUid
              else case libraryPanels uid of
                     None \<Rightarrow> Inl ErrNotConnected
                   | Some libraryPanelInDB \<Rightarrow>
                      (case MarshalJSON (Model libraryPanelInDB) of
                         Inl err \<Rightarrow> Inl err
                       | Inr libraryPanelModel \<Rightarrow>
                          (case NewJson libraryPanelModel of
                             Inl err \<Rightarrow> Inl err
                           | Inr libraryPanelModelAsJSON \<Rightarrow>
                               Inr (panels_elem_Set i ''libraryPanel''
                                      (JObj (fmap_of_list
                                         [(''uid'', JStr (UID libraryPanelInDB)),
                                          (''name'', JStr (Name libraryPanelInDB))]))
                                   (panels_elem_Set i ''id''
                                      (JNum (MustInt64 0 (Get ''id'' panelAsJSON)))
                                   (panels_elem_Set i ''gridPos''
                                      (MustMap (Get ''gridPos'' panelAsJSON))
                                   (panels_SetIndex i (Interface libraryPanelModelAsJSON)
                                      dash)))))))"

text \<open>The loop \<open>for i, panel := range panels\<close>, from index \<open>i\<close> on.\<close>

fun load_panels ::
  "(string \<rightharpoonup> LibraryPanel) \<Rightarrow> nat \<Rightarrow> json list \<Rightarrow> Dashboard \<Rightarrow> error option \<times> Dashboard" where
  "load_panels libraryPanels i [] dash = (None, dash)"
| "load_panels libraryPanels i (panel # panels) dash =
     (case load_panel libraryPanels i panel dash of
        Inl err \<Rightarrow> (Some err, dash)
      | Inr dash' \<Rightarrow> load_panels libraryPanels (Suc i) panels dash')"

text \<open>
  \<open>LoadLibraryPanelsForDashboard\<close>, lines 48-102 (Expand). The Go function returns
  the error and leaves its effects in \<open>dash\<close> and in the store; here it returns all three.
\<close>

definition LoadLibraryPanelsForDashboard ::
  "LibraryPanelService \<Rightarrow> SQLStore \<Rightarrow> Dashboard \<Rightarrow> error option \<times> Dashboard \<times> SQLStore" where
  "LoadLibraryPanelsForDashboard lps store dash =
     (if \<not> IsEnabled lps then (None, dash, store)
      else case getLibraryPanelsForDashboardID store (Id_dash dash) of
             (Inl err, store') \<Rightarrow> (Some err, dash, store')
           | (Inr libraryPanels, store') \<Rightarrow>
               (let panels = MustArray (Get ''panels'' (Data dash));
                    (err, dash') = load_panels libraryPanels 0 panels dash
                in (err, dash', store')))"

text \<open>The body of the loop of \<open>CleanLibraryPanelsForDashboard\<close>, lines 112-137.\<close>

definition clean_panel :: "nat \<Rightarrow> json \<Rightarrow> Dashboard \<Rightarrow> error + Dashboard" where
  "clean_panel i panel dash =
     (let panelAsJSON = NewFromAny panel;
          libraryPanel = Get ''libraryPanel'' panelAsJSON
      in if Interface libraryPanel = JNull then Inr dash
         else
           let uid = MustString (Get ''uid'' libraryPanel)
           in if length uid = 0 then Inl ErrNoUid
              else
                let name = MustString (Get ''name'' libraryPanel)
                in if length name = 0 then Inl ErrNoName
                   else
                     let gridPos = MustMap (Get ''gridPos'' panelAsJSON);
                         id = MustInt64 (int i) (Get ''id'' panelAsJSON)
                     in Inr (panels_SetIndex i
                               (JObj (fmap_of_list
                                  [(''id'', JNum id),
                                   (''gridPos'', gridPos),
                                   (''libraryPanel'',
                                      JObj (fmap_of_list
                                        [(''uid'', JStr uid), (''name'', JStr name)]))]))
                               dash))"

fun clean_panels :: "nat \<Rightarrow> json list \<Rightarrow> Dashboard \<Rightarrow> error option \<times> Dashboard" where
  "clean_panels i [] dash = (None, dash)"
| "clean_panels i (panel # panels) dash =
     (case clean_panel i panel dash of
        Inl err \<Rightarrow> (Some err, dash)
      | Inr dash' \<Rightarrow> clean_panels (Suc i) panels dash')"

text \<open>\<open>CleanLibraryPanelsForDashboard\<close>, lines 105-141 (Collapse).\<close>

definition CleanLibraryPanelsForDashboard ::
  "LibraryPanelService \<Rightarrow> Dashboard \<Rightarrow> error option \<times> Dashboard" where
  "CleanLibraryPanelsForDashboard lps dash =
     (if \<not> IsEnabled lps then (None, dash)
      else let panels = MustArray (Get ''panels'' (Data dash))
           in clean_panels 0 panels dash)"

text \<open>
  The loop of \<open>ConnectLibraryPanelsForDashboard\<close>, lines 154-170; it reads the
  entries and writes only to the store.
\<close>

fun connect_panels ::
  "ReqContext \<Rightarrow> int \<Rightarrow> json list \<Rightarrow> SQLStore \<Rightarrow> error option \<times> SQLStore" where
  "connect_panels c dashId [] store = (None, store)"
| "connect_panels c dashId (panel # panels) store =
     (let panelAsJSON = NewFromAny panel;
          libraryPanel = Get ''libraryPanel'' panelAsJSON
      in if Interface libraryPanel = JNull then connect_panels c dashId panels store
         else
           let uid = MustString (Get ''uid'' libraryPanel)
           in if length uid = 0 then (Some ErrNoUid, store)
              else case connectDashboard c uid dashId store of
                     (Some err, store') \<Rightarrow> (Some err, store')
                   | (None, store') \<Rightarrow> connect_panels c dashId panels store')"

text \<open>\<open>ConnectLibraryPanelsForDashboard\<close>, lines 144-173 (Link).\<close>

definition ConnectLibraryPanelsForDashboard ::
  "LibraryPanelService \<Rightarrow> ReqContext \<Rightarrow> SQLStore \<Rightarrow> Dashboard \<Rightarrow> error option \<times> Dashboard \<times> SQLStore" where
  "ConnectLibraryPanelsForDashboard lps c store dash =
     (if \<not> IsEnabled lps then (None, dash, store)
      else if Id_dash dash = 0 \<or> Uid dash = [] then (Some ErrMissingID, dash, store)
      else let panels = MustArray (Get ''panels'' (Data dash));
               (err, store') = connect_panels c (Id_dash dash) panels store
           in (err, dash, store'))"

section \<open>The loops, entry by entry\<close>

text \<open>
  The vocabulary of the statements below: the panel array of line 58, the test of
  lines 61-62 for a library reference, and the reference's two strings.
\<close>

definition panels_of :: "Dashboard \<Rightarrow> json list" where
  "panels_of dash = MustArray (Get ''panels'' (Data dash))"

definition is_library_panel :: "json \<Rightarrow> bool" where
  "is_library_panel panel = (Interface (Get ''libraryPanel'' (NewFromAny panel)) \<noteq> JNull)"

definition uid_of :: "json \<Rightarrow> string" where
  "uid_of panel = MustString (Get ''uid'' (Get ''libraryPanel'' (NewFromAny panel)))"

definition name_of :: "json \<Rightarrow> string" where
  "name_of panel = MustString (Get ''name'' (Get ''libraryPanel'' (NewFromAny panel)))"

text \<open>
  What lines 60-98 make of one entry, as a value: the entry that stands at its index
  when the iteration is over, or the error. The lemma \<open>load_panel_entry\<close> ties it to
  the loop body above.
\<close>

definition expand_entry :: "(string \<rightharpoonup> LibraryPanel) \<Rightarrow> json \<Rightarrow> error + json" where
  "expand_entry libraryPanels panel =
     (if \<not> is_library_panel panel then Inr panel
      else if uid_of panel = [] then Inl ErrNoUid
      else case libraryPanels (uid_of panel) of
             None \<Rightarrow> Inl ErrNotConnected
           | Some libraryPanelInDB \<Rightarrow>
              (case Model libraryPanelInDB of
                 Unmarshalable \<Rightarrow> Inl ErrMarshal
               | NotJSON \<Rightarrow> Inl ErrConvert
               | Blob model \<Rightarrow>
                   Inr (Set ''libraryPanel''
                          (JObj (fmap_of_list
                             [(''uid'', JStr (UID libraryPanelInDB)),
                              (''name'', JStr (Name libraryPanelInDB))]))
                       (Set ''id'' (JNum (MustInt64 0 (Get ''id'' panel)))
                       (Set ''gridPos'' (MustMap (Get ''gridPos'' panel)) model)))))"

text \<open>An entry on which lines 60-98 return no error.\<close>

definition expandable :: "(string \<rightharpoonup> LibraryPanel) \<Rightarrow> json \<Rightarrow> bool" where
  "expandable libraryPanels panel =
     (\<not> is_library_panel panel \<or>
      (uid_of panel \<noteq> [] \<and>
       (case libraryPanels (uid_of panel) of
          None \<Rightarrow> False
        | Some libraryPanelInDB \<Rightarrow>
            (case Model libraryPanelInDB of Blob model \<Rightarrow> True | _ \<Rightarrow> False))))"

text \<open>What lines 112-137 make of the entry at index \<open>i\<close>.\<close>

definition clean_entry :: "nat \<Rightarrow> json \<Rightarrow> error + json" where
  "clean_entry i panel =
     (if \<not> is_library_panel panel then Inr panel
      else if uid_of panel = [] then Inl ErrNoUid
      else if name_of panel = [] then Inl ErrNoName
      else Inr (JObj (fmap_of_list
                  [(''id'', JNum (MustInt64 (int i) (Get ''id'' panel))),
                   (''gridPos'', MustMap (Get ''gridPos'' panel)),
                   (''libraryPanel'',
                      JObj (fmap_of_list
                        [(''uid'', JStr (uid_of panel)), (''name'', JStr (name_of panel))]))])))"

text \<open>An entry on which lines 112-137 return no error.\<close>

definition cleanable :: "json \<Rightarrow> bool" where
  "cleanable panel =
     (\<not> is_library_panel panel \<or> (uid_of panel \<noteq> [] \<and> name_of panel \<noteq> []))"

text \<open>
  A loop that rewrites the entries in array order and stops at the first error: the
  entries before the failing one are rewritten, the others are as they were.
\<close>

fun run_entries ::
  "(nat \<Rightarrow> json \<Rightarrow> error + json) \<Rightarrow> nat \<Rightarrow> json list \<Rightarrow> error option \<times> json list" where
  "run_entries f i [] = (None, [])"
| "run_entries f i (panel # panels) =
     (case f i panel of
        Inl err \<Rightarrow> (Some err, panel # panels)
      | Inr panel' \<Rightarrow>
          (case run_entries f (Suc i) panels of (err, panels') \<Rightarrow> (err, panel' # panels')))"

text \<open>The dashboard with the entries \<open>a\<close> in its panel array, where it has one.\<close>

definition put_panels :: "json list \<Rightarrow> Dashboard \<Rightarrow> Dashboard" where
  "put_panels a dash =
     dash\<lparr>Data := at_key ''panels'' (\<lambda>val. case val of JArr b \<Rightarrow> JArr a | _ \<Rightarrow> val) (Data dash)\<rparr>"

text \<open>
  The state of a panel array \<open>new\<close> after such a loop over \<open>old\<close> has stopped at
  index \<open>k\<close>: the entries before \<open>k\<close> are rewritten by \<open>f\<close>, the entry at \<open>k\<close>
  and those after it are as they were.
\<close>

definition rewritten_up_to ::
  "(nat \<Rightarrow> json \<Rightarrow> error + json) \<Rightarrow> nat \<Rightarrow> json list \<Rightarrow> json list \<Rightarrow> bool" where
  "rewritten_up_to f k old new =
     (length new = length old \<and>
      (\<forall>j \<in> {..<k}. f j (old ! j) = Inr (new ! j)) \<and>
      (\<forall>j \<in> {k..<length old}. new ! j = old ! j))"

text \<open>The (library panel, dashboard) pairs of the link table, one for each row.\<close>

abbreviation (input) link_pairs :: "SQLStore \<Rightarrow> (int \<times> int) list" where
  "link_pairs store \<equiv>
     map (\<lambda>r. (librarypanel_id r, dashboard_id r)) (library_panel_dashboard store)"

section \<open>Example data\<close>

text \<open>
  The scenario of the specification: dashboard 7 is linked to the library panel
  \<open>abc\<close>, which is now called "New Name" and whose content is \<open>{type: "graph"}\<close>;
  the entry in the dashboard still carries the name "Old Name".
\<close>

definition lps_on :: LibraryPanelService where
  "lps_on = \<lparr>Cfg = Some \<lparr>IsPanelLibraryEnabled = True\<rparr>\<rparr>"

definition lps_off :: LibraryPanelService where
  "lps_off = \<lparr>Cfg = Some \<lparr>IsPanelLibraryEnabled = False\<rparr>\<rparr>"

definition lps_unconfigured :: LibraryPanelService where
  "lps_unconfigured = \<lparr>Cfg = None\<rparr>"

definition admin :: ReqContext where
  "admin = \<lparr>UserId = 1, OrgId = 1\<rparr>"

definition panel_abc :: LibraryPanel where
  "panel_abc =
     \<lparr>ID = 11, OrgID = 1, FolderID = 0, UID = ''abc'', Name = ''New Name'',
      Model = Blob (JObj (fmap_of_list [(''type'', JStr ''graph'')]))\<rparr>"

definition store_abc :: SQLStore where
  "store_abc =
     \<lparr>library_panel = [panel_abc],
      library_panel_dashboard = [\<lparr>librarypanel_id = 11, dashboard_id = 7, created_by = 1\<rparr>],
      online = True,
      accesses = []\<rparr>"

definition store_unlinked :: SQLStore where
  "store_unlinked =
     \<lparr>library_panel = [panel_abc], library_panel_dashboard = [], online = True, accesses = []\<rparr>"

definition store_offline :: SQLStore where
  "store_offline =
     \<lparr>library_panel = [panel_abc], library_panel_dashboard = [], online = False, accesses = []\<rparr>"

definition gridPos0 :: json where
  "gridPos0 = JObj (fmap_of_list [(''x'', JNum 0), (''y'', JNum 0)])"

definition entry_abc :: json where
  "entry_abc =
     JObj (fmap_of_list
       [(''id'', JNum 1), (''gridPos'', gridPos0),
        (''libraryPanel'',
           JObj (fmap_of_list [(''uid'', JStr ''abc''), (''name'', JStr ''Old Name'')]))])"

definition entry_abc_current :: json where
  "entry_abc_current =
     JObj (fmap_of_list
       [(''id'', JNum 1), (''gridPos'', gridPos0),
        (''libraryPanel'',
           JObj (fmap_of_list [(''uid'', JStr ''abc''), (''name'', JStr ''New Name'')]))])"

definition entry_no_uid :: json where
  "entry_no_uid =
     JObj (fmap_of_list
       [(''id'', JNum 2),
        (''libraryPanel'', JObj (fmap_of_list [(''name'', JStr ''Lost'')]))])"

definition entry_dangling :: json where
  "entry_dangling =
     JObj (fmap_of_list
       [(''id'', JNum 3),
        (''libraryPanel'',
           JObj (fmap_of_list [(''uid'', JStr ''zzz''), (''name'', JStr ''Gone'')]))])"

definition entry_plain :: json where
  "entry_plain = JObj (fmap_of_list [(''id'', JNum 4), (''type'', JStr ''text'')])"

definition dashboard_of :: "json list \<Rightarrow> Dashboard" where
  "dashboard_of entries =
     \<lparr>Id_dash = 7, Uid = ''home'',
      Data = JObj (fmap_of_list [(''title'', JStr ''Home''), (''panels'', JArr entries)])\<rparr>"

definition unsaved_dashboard :: Dashboard where
  "unsaved_dashboard =
     \<lparr>Id_dash = 0, Uid = [],
      Data = JObj (fmap_of_list [(''title'', JStr ''New''), (''panels'', JArr [entry_abc])])\<rparr>"

definition entry_abc_expanded :: json where
  "entry_abc_expanded =
     JObj (fmap_of_list
       [(''type'', JStr ''graph''), (''id'', JNum 1), (''gridPos'', gridPos0),
        (''libraryPanel'',
           JObj (fmap_of_list [(''uid'', JStr ''abc''), (''name'', JStr ''New Name'')]))])"

section \<open>The panel array of a dashboard\<close>

lemma fmupd_same: "fmlookup m k = Some v \<Longrightarrow> fmupd k v m = m"
  by (rule fmap_ext) auto

lemma Get_panels_JArr:
  "Get ''panels'' j = JArr a \<Longrightarrow> \<exists>m. j = JObj m \<and> fmlookup m ''panels'' = Some (JArr a)"
  by (auto simp: Get_def split: json.splits option.splits)

lemma put_panels_same:
  "Get ''panels'' (Data dash) = JArr a \<Longrightarrow> put_panels a dash = dash"
  by (auto dest!: Get_panels_JArr simp: put_panels_def at_key_def fmupd_same)

lemma put_panels_no_array:
  "panels_of dash = [] \<Longrightarrow> put_panels [] dash = dash"
  by (auto simp: put_panels_def panels_of_def at_key_def MustArray_def Get_def fmupd_same
      split: json.splits option.splits)

lemma put_panels_put_panels:
  "put_panels a (put_panels b dash) = put_panels a dash"
  by (auto simp: put_panels_def at_key_def split: json.splits option.splits)

lemma Get_panels_put_panels:
  assumes "Get ''panels'' (Data dash) = JArr b"
  shows "Get ''panels'' (Data (put_panels a dash)) = JArr a"
proof -
  from Get_panels_JArr [OF assms] obtain m
    where "Data dash = JObj m" and "fmlookup m ''panels'' = Some (JArr b)" by blast
  then show ?thesis by (simp add: put_panels_def at_key_def Get_def)
qed

lemma panels_of_put_panels:
  "length a = length (panels_of dash) \<Longrightarrow> panels_of (put_panels a dash) = a"
  by (auto simp: put_panels_def panels_of_def at_key_def MustArray_def Get_def
      split: json.splits option.splits)

lemma Get_other_put_panels:
  "key \<noteq> ''panels'' \<Longrightarrow> Get key (Data (put_panels a dash)) = Get key (Data dash)"
  by (auto simp: put_panels_def at_key_def Get_def split: json.splits option.splits)

lemma Id_put_panels: "Id_dash (put_panels a dash) = Id_dash dash"
  and Uid_put_panels: "Uid (put_panels a dash) = Uid dash"
  by (simp_all add: put_panels_def)

lemma panels_SetIndex_put:
  "Get ''panels'' (Data dash) = JArr a \<Longrightarrow> i < length a \<Longrightarrow>
   panels_SetIndex i val dash = put_panels (a[i := val]) dash"
  by (auto dest!: Get_panels_JArr simp: panels_SetIndex_def put_panels_def at_key_def SetIndex_def)

lemma panels_elem_Set_put:
  "Get ''panels'' (Data dash) = JArr a \<Longrightarrow> i < length a \<Longrightarrow>
   panels_elem_Set i key val dash = put_panels (a[i := Set key val (a ! i)]) dash"
  by (auto dest!: Get_panels_JArr simp: panels_elem_Set_def put_panels_def at_key_def at_index_def)

lemma load_panel_entry:
  assumes "Get ''panels'' (Data dash) = JArr a" and "i < length a"
  shows "load_panel libraryPanels i (a ! i) dash =
           (case expand_entry libraryPanels (a ! i) of
              Inl err \<Rightarrow> Inl err
            | Inr panel' \<Rightarrow> Inr (put_panels (a[i := panel']) dash))"
proof (cases "is_library_panel (a ! i)")
  case False
  then show ?thesis
    using assms
    by (simp add: load_panel_def expand_entry_def is_library_panel_def put_panels_same)
next
  case True
  have step: "panels_elem_Set i k3 v3 (panels_elem_Set i k2 v2 (panels_elem_Set i k1 v1
                (panels_SetIndex i model dash))) =
              put_panels (a[i := Set k3 v3 (Set k2 v2 (Set k1 v1 model))]) dash"
    for k1 k2 k3 v1 v2 v3 model
    using assms
    by (simp add: panels_SetIndex_put panels_elem_Set_put Get_panels_put_panels
        put_panels_put_panels)
  show ?thesis
    using True
    by (simp add: load_panel_def expand_entry_def is_library_panel_def uid_of_def step
        MarshalJSON_def NewJson_def Let_def NewFromAny_def Interface_def
        split: option.splits RawMessage.splits)
qed

lemma clean_panel_entry:
  assumes "Get ''panels'' (Data dash) = JArr a" and "i < length a"
  shows "clean_panel i (a ! i) dash =
           (case clean_entry i (a ! i) of
              Inl err \<Rightarrow> Inl err
            | Inr panel' \<Rightarrow> Inr (put_panels (a[i := panel']) dash))"
  using assms
  by (simp add: clean_panel_def clean_entry_def is_library_panel_def uid_of_def name_of_def
      Let_def NewFromAny_def Interface_def panels_SetIndex_put put_panels_same)

lemma load_panels_run:
  assumes "Get ''panels'' (Data dash) = JArr (pre @ rest)"
  shows "load_panels libraryPanels (length pre) rest dash =
           (case run_entries (\<lambda>_. expand_entry libraryPanels) (length pre) rest of
              (err, rest') \<Rightarrow> (err, put_panels (pre @ rest') dash))"
  using assms
proof (induction rest arbitrary: pre dash)
  case Nil
  then show ?case by (simp add: put_panels_same)
next
  case (Cons panel rest)
  have body: "load_panel libraryPanels (length pre) panel dash =
           (case expand_entry libraryPanels panel of
              Inl err \<Rightarrow> Inl err
            | Inr panel' \<Rightarrow> Inr (put_panels (pre @ panel' # rest) dash))"
    using load_panel_entry [OF Cons.prems, of "length pre" libraryPanels]
    by (simp split: sum.splits)
  show ?case
  proof (cases "expand_entry libraryPanels panel")
    case (Inl err)
    then show ?thesis
      using Cons.prems by (simp add: body put_panels_same)
  next
    case (Inr panel')
    let ?dash = "put_panels (pre @ panel' # rest) dash"
    have "Get ''panels'' (Data ?dash) = JArr ((pre @ [panel']) @ rest)"
      using Cons.prems by (simp add: Get_panels_put_panels)
    from Cons.IH [OF this]
    have "load_panels libraryPanels (Suc (length pre)) rest ?dash =
            (case run_entries (\<lambda>_. expand_entry libraryPanels) (Suc (length pre)) rest of
               (err, rest') \<Rightarrow> (err, put_panels (pre @ panel' # rest') dash))"
      by (simp add: put_panels_put_panels)
    then show ?thesis
      using Inr by (simp add: body split: prod.splits)
  qed
qed

lemma clean_panels_run:
  assumes "Get ''panels'' (Data dash) = JArr (pre @ rest)"
  shows "clean_panels (length pre) rest dash =
           (case run_entries clean_entry (length pre) rest of
              (err, rest') \<Rightarrow> (err, put_panels (pre @ rest') dash))"
  using assms
proof (induction rest arbitrary: pre dash)
  case Nil
  then show ?case by (simp add: put_panels_same)
next
  case (Cons panel rest)
  have body: "clean_panel (length pre) panel dash =
           (case clean_entry (length pre) panel of
              Inl err \<Rightarrow> Inl err
            | Inr panel' \<Rightarrow> Inr (put_panels (pre @ panel' # rest) dash))"
    using clean_panel_entry [OF Cons.prems, of "length pre"]
    by (simp split: sum.splits)
  show ?case
  proof (cases "clean_entry (length pre) panel")
    case (Inl err)
    then show ?thesis
      using Cons.prems by (simp add: body put_panels_same)
  next
    case (Inr panel')
    let ?dash = "put_panels (pre @ panel' # rest) dash"
    have "Get ''panels'' (Data ?dash) = JArr ((pre @ [panel']) @ rest)"
      using Cons.prems by (simp add: Get_panels_put_panels)
    from Cons.IH [OF this]
    have "clean_panels (Suc (length pre)) rest ?dash =
            (case run_entries clean_entry (Suc (length pre)) rest of
               (err, rest') \<Rightarrow> (err, put_panels (pre @ panel' # rest') dash))"
      by (simp add: put_panels_put_panels)
    then show ?thesis
      using Inr by (simp add: body split: prod.splits)
  qed
qed

lemma panels_of_cases:
  "(\<exists>a. Get ''panels'' (Data dash) = JArr a \<and> panels_of dash = a) \<or>
   ((\<forall>a. Get ''panels'' (Data dash) \<noteq> JArr a) \<and> panels_of dash = [])"
  by (cases "Get ''panels'' (Data dash)") (simp_all add: panels_of_def MustArray_def)

lemma load_panels_all:
  "load_panels libraryPanels 0 (panels_of dash) dash =
     (case run_entries (\<lambda>_. expand_entry libraryPanels) 0 (panels_of dash) of
        (err, panels') \<Rightarrow> (err, put_panels panels' dash))"
  using panels_of_cases [of dash]
  by (auto simp: load_panels_run [where pre = "[]", simplified] put_panels_no_array)

lemma clean_panels_all:
  "clean_panels 0 (panels_of dash) dash =
     (case run_entries clean_entry 0 (panels_of dash) of
        (err, panels') \<Rightarrow> (err, put_panels panels' dash))"
  using panels_of_cases [of dash]
  by (auto simp: clean_panels_run [where pre = "[]", simplified] put_panels_no_array)

lemma Load_enabled:
  assumes "IsEnabled lps" and "online store"
  shows "LoadLibraryPanelsForDashboard lps store dash =
           (case run_entries (\<lambda>_. expand_entry (linked_panels store (Id_dash dash))) 0
                   (panels_of dash) of
              (err, panels') \<Rightarrow>
                (err, put_panels panels' dash,
                 store\<lparr>accesses := accesses store @ [FetchLinkedPanels (Id_dash dash)]\<rparr>))"
  using assms
  by (simp add: LoadLibraryPanelsForDashboard_def getLibraryPanelsForDashboardID_def Let_def
      load_panels_all [unfolded panels_of_def] panels_of_def split: prod.splits)

lemma Load_offline:
  assumes "IsEnabled lps" and "\<not> online store"
  shows "LoadLibraryPanelsForDashboard lps store dash =
           (Some ErrStore, dash,
            store\<lparr>accesses := accesses store @ [FetchLinkedPanels (Id_dash dash)]\<rparr>)"
  using assms
  by (simp add: LoadLibraryPanelsForDashboard_def getLibraryPanelsForDashboardID_def Let_def)

lemma Clean_enabled:
  assumes "IsEnabled lps"
  shows "CleanLibraryPanelsForDashboard lps dash =
           (case run_entries clean_entry 0 (panels_of dash) of
              (err, panels') \<Rightarrow> (err, put_panels panels' dash))"
  using assms
  by (simp add: CleanLibraryPanelsForDashboard_def Let_def
      clean_panels_all [unfolded panels_of_def] panels_of_def)

section \<open>Loops that stop at the first error\<close>

lemma run_entries_Cons:
  "run_entries f i (x # xs) =
     (case f i x of
        Inl e \<Rightarrow> (Some e, x # xs)
      | Inr x' \<Rightarrow> (fst (run_entries f (Suc i) xs), x' # snd (run_entries f (Suc i) xs)))"
  by (simp split: sum.splits prod.splits)

lemma run_entries_length: "length (snd (run_entries f i xs)) = length xs"
  by (induction xs arbitrary: i) (simp_all add: run_entries_Cons split: sum.splits del: run_entries.simps(2))

lemma run_entries_kept:
  "k < length xs \<Longrightarrow> f (i + k) (xs ! k) = Inr (xs ! k) \<Longrightarrow> snd (run_entries f i xs) ! k = xs ! k"
proof (induction xs arbitrary: i k)
  case Nil
  then show ?case by simp
next
  case (Cons x xs)
  show ?case
  proof (cases k)
    case 0
    with Cons.prems show ?thesis by (simp add: run_entries_Cons split: sum.splits del: run_entries.simps(2))
  next
    case (Suc k')
    with Cons.prems have "snd (run_entries f (Suc i) xs) ! k' = xs ! k'"
      by (intro Cons.IH) simp_all
    with Suc show ?thesis by (simp add: run_entries_Cons split: sum.splits del: run_entries.simps(2))
  qed
qed

lemma run_entries_reached:
  "k < length xs \<Longrightarrow> \<forall>j<k. \<exists>y. f (i + j) (xs ! j) = Inr y \<Longrightarrow> f (i + k) (xs ! k) = Inr y \<Longrightarrow>
   snd (run_entries f i xs) ! k = y"
proof (induction xs arbitrary: i k)
  case Nil
  then show ?case by simp
next
  case (Cons x xs)
  show ?case
  proof (cases k)
    case 0
    with Cons.prems show ?thesis by (simp add: run_entries_Cons del: run_entries.simps(2))
  next
    case (Suc k')
    from Cons.prems Suc obtain x' where x': "f i x = Inr x'"
      by fastforce
    have "\<forall>j<k'. \<exists>y. f (Suc i + j) (xs ! j) = Inr y"
    proof (intro allI impI)
      fix j assume "j < k'"
      with Suc have "Suc j < k" by simp
      with Cons.prems(2) have "\<exists>y. f (i + Suc j) ((x # xs) ! Suc j) = Inr y" by blast
      then show "\<exists>y. f (Suc i + j) (xs ! j) = Inr y" by simp
    qed
    with Cons.prems Suc have "snd (run_entries f (Suc i) xs) ! k' = y"
      by (intro Cons.IH) simp_all
    with Suc x' show ?thesis by (simp add: run_entries_Cons del: run_entries.simps(2))
  qed
qed

lemma run_entries_failed:
  "k < length xs \<Longrightarrow> \<forall>j<k. \<exists>y. f (i + j) (xs ! j) = Inr y \<Longrightarrow> f (i + k) (xs ! k) = Inl e \<Longrightarrow>
   fst (run_entries f i xs) = Some e \<and> drop k (snd (run_entries f i xs)) = drop k xs"
proof (induction xs arbitrary: i k)
  case Nil
  then show ?case by simp
next
  case (Cons x xs)
  show ?case
  proof (cases k)
    case 0
    with Cons.prems show ?thesis by simp
  next
    case (Suc k')
    from Cons.prems Suc obtain x' where x': "f i x = Inr x'"
      by fastforce
    have "\<forall>j<k'. \<exists>y. f (Suc i + j) (xs ! j) = Inr y"
    proof (intro allI impI)
      fix j assume "j < k'"
      with Suc have "Suc j < k" by simp
      with Cons.prems(2) have "\<exists>y. f (i + Suc j) ((x # xs) ! Suc j) = Inr y" by blast
      then show "\<exists>y. f (Suc i + j) (xs ! j) = Inr y" by simp
    qed
    with Cons.prems Suc
    have "fst (run_entries f (Suc i) xs) = Some e \<and>
          drop k' (snd (run_entries f (Suc i) xs)) = drop k' xs"
      by (intro Cons.IH) simp_all
    with Suc x' show ?thesis by (simp add: run_entries_Cons del: run_entries.simps(2))
  qed
qed

lemma run_entries_Some:
  "fst (run_entries f i xs) = Some e \<Longrightarrow>
   \<exists>k<length xs. (\<forall>j<k. \<exists>y. f (i + j) (xs ! j) = Inr y) \<and> f (i + k) (xs ! k) = Inl e"
proof (induction xs arbitrary: i)
  case Nil
  then show ?case by simp
next
  case (Cons x xs)
  show ?case
  proof (cases "f i x")
    case (Inl e')
    with Cons.prems have "f (i + 0) ((x # xs) ! 0) = Inl e" by simp
    then show ?thesis by (intro exI [of _ 0]) simp
  next
    case (Inr x')
    with Cons.prems have "fst (run_entries f (Suc i) xs) = Some e"
      by (simp add: run_entries_Cons del: run_entries.simps(2))
    from Cons.IH [OF this] obtain k where k: "k < length xs"
      "\<forall>j<k. \<exists>y. f (Suc i + j) (xs ! j) = Inr y" "f (Suc i + k) (xs ! k) = Inl e"
      by blast
    have "\<forall>j<Suc k. \<exists>y. f (i + j) ((x # xs) ! j) = Inr y"
    proof (intro allI impI)
      fix j assume j: "j < Suc k"
      show "\<exists>y. f (i + j) ((x # xs) ! j) = Inr y"
      proof (cases j)
        case 0
        with Inr show ?thesis by simp
      next
        case (Suc j')
        with j k(2) show ?thesis by simp
      qed
    qed
    with k show ?thesis by (intro exI [of _ "Suc k"]) simp
  qed
qed

lemma run_entries_None:
  "fst (run_entries f i xs) = None \<longleftrightarrow> (\<forall>k<length xs. \<exists>y. f (i + k) (xs ! k) = Inr y)"
proof
  assume none: "fst (run_entries f i xs) = None"
  show "\<forall>k<length xs. \<exists>y. f (i + k) (xs ! k) = Inr y"
  proof (rule ccontr)
    assume "\<not> ?thesis"
    then have "\<exists>k. k < length xs \<and> (\<forall>y. f (i + k) (xs ! k) \<noteq> Inr y)" by blast
    then obtain k where k: "k < length xs \<and> (\<forall>y. f (i + k) (xs ! k) \<noteq> Inr y)"
      and least: "\<forall>j<k. \<not> (j < length xs \<and> (\<forall>y. f (i + j) (xs ! j) \<noteq> Inr y))"
      using exists_least_iff [of "\<lambda>k. k < length xs \<and> (\<forall>y. f (i + k) (xs ! k) \<noteq> Inr y)"]
      by blast
    from k obtain e where "f (i + k) (xs ! k) = Inl e"
      by (cases "f (i + k) (xs ! k)") auto
    moreover from least k have "\<forall>j<k. \<exists>y. f (i + j) (xs ! j) = Inr y" by auto
    ultimately have "fst (run_entries f i xs) = Some e"
      using k run_entries_failed by blast
    with none show False by simp
  qed
next
  assume ok: "\<forall>k<length xs. \<exists>y. f (i + k) (xs ! k) = Inr y"
  show "fst (run_entries f i xs) = None"
  proof (cases "fst (run_entries f i xs)")
    case None
    then show ?thesis .
  next
    case (Some e)
    from run_entries_Some [OF this] ok show ?thesis by fastforce
  qed
qed

lemma run_entries_cong:
  assumes "length xs = length ys"
    and "\<forall>k<length xs. \<exists>y. f (i + k) (xs ! k) = Inr y \<and> f (i + k) (ys ! k) = Inr y"
  shows "run_entries f i xs = run_entries f i ys"
proof -
  have "fst (run_entries f i xs) = None" "fst (run_entries f i ys) = None"
    using assms by (auto simp: run_entries_None)
  moreover have "snd (run_entries f i xs) = snd (run_entries f i ys)"
  proof (rule nth_equalityI)
    show "length (snd (run_entries f i xs)) = length (snd (run_entries f i ys))"
      using assms(1) by (simp add: run_entries_length)
  next
    fix k assume "k < length (snd (run_entries f i xs))"
    then have k: "k < length xs" by (simp add: run_entries_length)
    with assms(2) obtain y where y: "f (i + k) (xs ! k) = Inr y" "f (i + k) (ys ! k) = Inr y"
      by blast
    have before: "\<exists>y. f (i + j) (xs ! j) = Inr y" "\<exists>y. f (i + j) (ys ! j) = Inr y"
      if "j < k" for j
    proof -
      from that k have "j < length xs" by simp
      with assms(2) show "\<exists>y. f (i + j) (xs ! j) = Inr y" "\<exists>y. f (i + j) (ys ! j) = Inr y"
        by blast+
    qed
    have "snd (run_entries f i xs) ! k = y"
      using k y(1) before(1) by (intro run_entries_reached) simp_all
    moreover have "snd (run_entries f i ys) ! k = y"
      using k y(2) before(2) assms(1) by (intro run_entries_reached) simp_all
    ultimately show "snd (run_entries f i xs) ! k = snd (run_entries f i ys) ! k" by simp
  qed
  ultimately show ?thesis by (simp add: prod_eq_iff)
qed

section \<open>Single entries\<close>

text \<open>The id that Collapse stores: the entry's own, or the default when it has none.\<close>

lemma MustInt64_present:
  "- (2 ^ 63) \<le> n \<Longrightarrow> n < 2 ^ 63 \<Longrightarrow> MustInt64 def (JNum n) = n"
  by (simp add: MustInt64_def)

lemma MustInt64_absent: "MustInt64 def JNull = def"
  by (simp add: MustInt64_def)

lemma expandable_iff: "expandable lib panel \<longleftrightarrow> (\<exists>y. expand_entry lib panel = Inr y)"
  by (auto simp: expandable_def expand_entry_def split: option.splits RawMessage.splits)

lemma cleanable_iff: "cleanable panel \<longleftrightarrow> (\<exists>y. clean_entry i panel = Inr y)"
  by (auto simp: cleanable_def clean_entry_def)

lemma expand_entry_plain: "\<not> is_library_panel panel \<Longrightarrow> expand_entry lib panel = Inr panel"
  by (simp add: expand_entry_def)

lemma clean_entry_plain: "\<not> is_library_panel panel \<Longrightarrow> clean_entry i panel = Inr panel"
  by (simp add: clean_entry_def)

lemma expand_entry_ErrNotConnected:
  "expand_entry lib panel = Inl ErrNotConnected \<longleftrightarrow>
     is_library_panel panel \<and> uid_of panel \<noteq> [] \<and> lib (uid_of panel) = None"
  by (auto simp: expand_entry_def split: option.splits RawMessage.splits)

lemma expand_entry_ErrNoUid:
  "expand_entry lib panel = Inl ErrNoUid \<longleftrightarrow> is_library_panel panel \<and> uid_of panel = []"
  by (auto simp: expand_entry_def split: option.splits RawMessage.splits)

lemma clean_entry_Inl:
  "clean_entry i panel = Inl e \<longleftrightarrow>
     is_library_panel panel \<and>
     (if uid_of panel = [] then e = ErrNoUid else name_of panel = [] \<and> e = ErrNoName)"
  by (auto simp: clean_entry_def)

lemma linked_panels_UID: "linked_panels store dashboardID uid = Some p \<Longrightarrow> UID p = uid"
  by (auto simp: linked_panels_def dest!: map_of_SomeD)

section \<open>The three functions with the feature enabled\<close>

lemma Clean_fst:
  "IsEnabled lps \<Longrightarrow>
   fst (CleanLibraryPanelsForDashboard lps dash) = fst (run_entries clean_entry 0 (panels_of dash))"
  by (simp add: Clean_enabled split: prod.splits)

lemma Clean_snd:
  "IsEnabled lps \<Longrightarrow>
   snd (CleanLibraryPanelsForDashboard lps dash) =
     put_panels (snd (run_entries clean_entry 0 (panels_of dash))) dash"
  by (simp add: Clean_enabled split: prod.splits)

lemma Clean_panels:
  "IsEnabled lps \<Longrightarrow>
   panels_of (snd (CleanLibraryPanelsForDashboard lps dash)) =
     snd (run_entries clean_entry 0 (panels_of dash))"
  by (simp add: Clean_snd panels_of_put_panels run_entries_length)

lemma Load_fst:
  "IsEnabled lps \<Longrightarrow> online store \<Longrightarrow>
   fst (LoadLibraryPanelsForDashboard lps store dash) =
     fst (run_entries (\<lambda>_. expand_entry (linked_panels store (Id_dash dash))) 0 (panels_of dash))"
  by (simp add: Load_enabled split: prod.splits)

lemma Load_dash:
  "IsEnabled lps \<Longrightarrow> online store \<Longrightarrow>
   fst (snd (LoadLibraryPanelsForDashboard lps store dash)) =
     put_panels (snd (run_entries (\<lambda>_. expand_entry (linked_panels store (Id_dash dash))) 0
                   (panels_of dash))) dash"
  by (simp add: Load_enabled split: prod.splits)

lemma Load_panels:
  "IsEnabled lps \<Longrightarrow> online store \<Longrightarrow>
   panels_of (fst (snd (LoadLibraryPanelsForDashboard lps store dash))) =
     snd (run_entries (\<lambda>_. expand_entry (linked_panels store (Id_dash dash))) 0 (panels_of dash))"
  by (simp add: Load_dash panels_of_put_panels run_entries_length)

lemma lookup_Inr:
  "fst (getLibraryPanelsForDashboardID store dashboardID) = Inr lib \<longleftrightarrow>
     online store \<and> lib = linked_panels store dashboardID"
  by (auto simp: getLibraryPanelsForDashboardID_def Let_def)

lemma put_panels_panels_of: "put_panels (panels_of dash) dash = dash"
  using panels_of_cases [of dash] by (auto simp: put_panels_same put_panels_no_array)

lemma run_entries_rewritten:
  assumes "fst (run_entries f 0 xs) = Some e"
  shows "\<exists>k<length xs. f k (xs ! k) = Inl e \<and> rewritten_up_to f k xs (snd (run_entries f 0 xs))"
proof -
  from run_entries_Some [OF assms] obtain k where k: "k < length xs"
    and before: "\<forall>j<k. \<exists>y. f (0 + j) (xs ! j) = Inr y" and at: "f (0 + k) (xs ! k) = Inl e"
    by blast
  let ?ys = "snd (run_entries f 0 xs)"
  have len: "length ?ys = length xs" by (rule run_entries_length)
  have "f j (xs ! j) = Inr (?ys ! j)" if "j < k" for j
  proof -
    from before that obtain y where y: "f (0 + j) (xs ! j) = Inr y" by blast
    from that k have "j < length xs" by simp
    moreover from before that have "\<forall>l<j. \<exists>y. f (0 + l) (xs ! l) = Inr y" by simp
    ultimately have "?ys ! j = y" using y by (rule run_entries_reached)
    with y show ?thesis by simp
  qed
  moreover have "?ys ! j = xs ! j" if "k \<le> j" "j < length xs" for j
  proof -
    from run_entries_failed [OF k before at] have "drop k ?ys = drop k xs" by simp
    then have "drop k ?ys ! (j - k) = drop k xs ! (j - k)" by simp
    with that len show ?thesis by simp
  qed
  ultimately have "rewritten_up_to f k xs ?ys"
    using len by (simp add: rewritten_up_to_def)
  with k at show ?thesis by auto
qed

lemma first_failure:
  assumes "i < length xs" and "f i (xs ! i) = Inl e" and "\<forall>j<i. \<exists>y. f j (xs ! j) = Inr y"
  shows "fst (run_entries f 0 xs) = Some e"
  using run_entries_failed [of i xs f 0 e] assms by simp

lemma some_failure:
  assumes "i < length xs" and "f i (xs ! i) = Inl e"
  shows "fst (run_entries f 0 xs) \<noteq> None"
  using assms by (auto simp: run_entries_None)

lemma MustMap_MustMap: "MustMap (MustMap j) = MustMap j"
  by (cases j) (simp_all add: MustMap_def)

section \<open>The example data\<close>

lemma IsEnabled_lps_on: "IsEnabled lps_on"
  by (simp add: IsEnabled_def lps_on_def)

lemma panels_of_dashboard_of: "panels_of (dashboard_of entries) = entries"
  by (simp add: panels_of_def dashboard_of_def MustArray_def Get_def)

lemma put_panels_dashboard_of: "put_panels new (dashboard_of entries) = dashboard_of new"
  by (simp add: put_panels_def dashboard_of_def at_key_def) (rule fmap_ext, auto)

lemma dashboard_of_eq: "dashboard_of xs = dashboard_of ys \<longleftrightarrow> xs = ys"
proof
  assume "dashboard_of xs = dashboard_of ys"
  then have "panels_of (dashboard_of xs) = panels_of (dashboard_of ys)" by simp
  then show "xs = ys" by (simp add: panels_of_dashboard_of)
qed simp

lemma linked_panels_store_abc:
  "linked_panels store_abc 7 = [''abc'' \<mapsto> panel_abc]"
  by (rule ext) (simp add: linked_panels_def store_abc_def linked_to_def panel_abc_def)

lemma entry_abc_facts:
  "is_library_panel entry_abc" "uid_of entry_abc = ''abc''" "name_of entry_abc = ''Old Name''"
  "Get ''id'' entry_abc = JNum 1" "Get ''gridPos'' entry_abc = gridPos0"
  by (simp_all add: entry_abc_def is_library_panel_def uid_of_def name_of_def Get_def
      NewFromAny_def Interface_def MustString_def)

lemma entry_abc_expanded_facts:
  "is_library_panel entry_abc_expanded" "uid_of entry_abc_expanded = ''abc''"
  "name_of entry_abc_expanded = ''New Name''"
  "Get ''id'' entry_abc_expanded = JNum 1" "Get ''gridPos'' entry_abc_expanded = gridPos0"
  "Get ''type'' entry_abc_expanded = JStr ''graph''"
  by (simp_all add: entry_abc_expanded_def is_library_panel_def uid_of_def name_of_def Get_def
      NewFromAny_def Interface_def MustString_def)

lemma entry_abc_current_facts:
  "is_library_panel entry_abc_current" "uid_of entry_abc_current = ''abc''"
  "name_of entry_abc_current = ''New Name''"
  "Get ''id'' entry_abc_current = JNum 1" "Get ''gridPos'' entry_abc_current = gridPos0"
  "Get ''type'' entry_abc_current = JNull"
  by (simp_all add: entry_abc_current_def is_library_panel_def uid_of_def name_of_def Get_def
      NewFromAny_def Interface_def MustString_def)

lemma entry_no_uid_facts:
  "is_library_panel entry_no_uid" "uid_of entry_no_uid = []"
  by (simp_all add: entry_no_uid_def is_library_panel_def uid_of_def Get_def
      NewFromAny_def Interface_def MustString_def)

lemma entry_dangling_facts:
  "is_library_panel entry_dangling" "uid_of entry_dangling = ''zzz''"
  by (simp_all add: entry_dangling_def is_library_panel_def uid_of_def Get_def
      NewFromAny_def Interface_def MustString_def)

lemma entry_plain_facts: "\<not> is_library_panel entry_plain"
  by (simp add: entry_plain_def is_library_panel_def Get_def NewFromAny_def Interface_def)

lemma MustMap_gridPos0: "MustMap gridPos0 = gridPos0"
  by (simp add: gridPos0_def MustMap_def)

lemma expand_entry_abc:
  "expand_entry [''abc'' \<mapsto> panel_abc] entry_abc = Inr entry_abc_expanded"
  apply (simp add: expand_entry_def entry_abc_facts MustMap_gridPos0 MustInt64_def
      panel_abc_def Set_def entry_abc_expanded_def)
  apply (rule fmap_ext)
  apply auto
  done

lemma clean_entry_abc_expanded:
  "clean_entry i entry_abc_expanded = Inr entry_abc_current"
  by (simp add: clean_entry_def entry_abc_expanded_facts MustMap_gridPos0 MustInt64_def
      entry_abc_current_def)

lemma clean_entry_abc: "clean_entry i entry_abc = Inr entry_abc"
  by (simp add: clean_entry_def entry_abc_facts MustMap_gridPos0 MustInt64_def)
    (simp add: entry_abc_def)

lemma entries_differ:
  "entry_abc \<noteq> entry_abc_current" "entry_abc \<noteq> entry_abc_expanded"
  "entry_abc_expanded \<noteq> entry_abc_current"
proof -
  have "name_of entry_abc \<noteq> name_of entry_abc_current"
    by (simp add: entry_abc_facts entry_abc_current_facts)
  then show "entry_abc \<noteq> entry_abc_current" by auto
  have "name_of entry_abc \<noteq> name_of entry_abc_expanded"
    by (simp add: entry_abc_facts entry_abc_expanded_facts)
  then show "entry_abc \<noteq> entry_abc_expanded" by auto
  have "Get ''type'' entry_abc_expanded \<noteq> Get ''type'' entry_abc_current"
    by (simp add: entry_abc_expanded_facts entry_abc_current_facts)
  then show "entry_abc_expanded \<noteq> entry_abc_current" by auto
qed

lemma store_abc_facts:
  "online store_abc" "accesses store_abc = []" "library_panel store_abc = [panel_abc]"
  by (simp_all add: store_abc_def)

lemma Id_dashboard_of: "Id_dash (dashboard_of entries) = 7"
  and Uid_dashboard_of: "Uid (dashboard_of entries) = ''home''"
  by (simp_all add: dashboard_of_def)

lemma lookup_store_abc:
  "fst (getLibraryPanelsForDashboardID store_abc (Id_dash (dashboard_of entries))) =
     Inr [''abc'' \<mapsto> panel_abc]"
  by (simp add: lookup_Inr linked_panels_store_abc store_abc_facts Id_dashboard_of)

lemma Set_chain_abc:
  "Set ''libraryPanel''
     (JObj (fmap_of_list [(''uid'', JStr ''abc''), (''name'', JStr ''New Name'')]))
    (Set ''id'' (JNum 1) (Set ''gridPos'' gridPos0
       (JObj (fmap_of_list [(''type'', JStr ''graph'')])))) = entry_abc_expanded"
  by (simp add: Set_def entry_abc_expanded_def) (rule fmap_ext, auto)

lemma store_unlinked_facts:
  "online store_unlinked" "library_panel store_unlinked = [panel_abc]"
  "library_panel_dashboard store_unlinked = []"
  by (simp_all add: store_unlinked_def)

lemma Load_abc_then_no_uid:
  "LoadLibraryPanelsForDashboard lps_on store_abc (dashboard_of [entry_abc, entry_no_uid]) =
     (Some ErrNoUid, dashboard_of [entry_abc_expanded, entry_no_uid],
      store_abc\<lparr>accesses := [FetchLinkedPanels 7]\<rparr>)"
proof -
  have "online store_abc" "accesses store_abc = []" "Id_dash (dashboard_of es) = 7" for es
    by (simp_all add: store_abc_def dashboard_of_def)
  then show ?thesis
    by (simp add: Load_enabled IsEnabled_lps_on panels_of_dashboard_of linked_panels_store_abc
        expand_entry_abc put_panels_dashboard_of)
      (simp add: expand_entry_def entry_no_uid_facts)
qed

lemma Clean_abc_then_no_uid:
  "CleanLibraryPanelsForDashboard lps_on (dashboard_of [entry_abc, entry_no_uid]) =
     (Some ErrNoUid, dashboard_of [entry_abc, entry_no_uid])"
  by (simp add: Clean_enabled IsEnabled_lps_on panels_of_dashboard_of clean_entry_abc
        put_panels_dashboard_of)
     (simp add: clean_entry_def entry_no_uid_facts)

lemma Clean_expanded_then_no_uid:
  "CleanLibraryPanelsForDashboard lps_on (dashboard_of [entry_abc_expanded, entry_no_uid]) =
     (Some ErrNoUid, dashboard_of [entry_abc_current, entry_no_uid])"
  by (simp add: Clean_enabled IsEnabled_lps_on panels_of_dashboard_of clean_entry_abc_expanded
        put_panels_dashboard_of)
     (simp add: clean_entry_def entry_no_uid_facts)

lemma Load_no_uid_first:
  "LoadLibraryPanelsForDashboard lps_on store_abc (dashboard_of (entry_no_uid # entries)) =
     (Some ErrNoUid, dashboard_of (entry_no_uid # entries),
      store_abc\<lparr>accesses := [FetchLinkedPanels 7]\<rparr>)"
  by (simp add: Load_enabled IsEnabled_lps_on panels_of_dashboard_of store_abc_facts
      Id_dashboard_of expand_entry_def entry_no_uid_facts put_panels_dashboard_of)

lemma Load_dangling_first:
  "LoadLibraryPanelsForDashboard lps_on store_abc (dashboard_of (entry_dangling # entries)) =
     (Some ErrNotConnected, dashboard_of (entry_dangling # entries),
      store_abc\<lparr>accesses := [FetchLinkedPanels 7]\<rparr>)"
  by (simp add: Load_enabled IsEnabled_lps_on panels_of_dashboard_of store_abc_facts
      Id_dashboard_of linked_panels_store_abc expand_entry_def entry_dangling_facts
      put_panels_dashboard_of)

lemma Load_scenario:
  "LoadLibraryPanelsForDashboard lps_on store_abc (dashboard_of [entry_abc]) =
     (None, dashboard_of [entry_abc_expanded],
      store_abc\<lparr>accesses := [FetchLinkedPanels 7]\<rparr>)"
  by (simp add: Load_enabled IsEnabled_lps_on panels_of_dashboard_of store_abc_facts
      Id_dashboard_of linked_panels_store_abc expand_entry_abc put_panels_dashboard_of)

lemma Clean_scenario:
  "CleanLibraryPanelsForDashboard lps_on (dashboard_of [entry_abc_expanded]) =
     (None, dashboard_of [entry_abc_current])"
  "CleanLibraryPanelsForDashboard lps_on (dashboard_of [entry_abc]) =
     (None, dashboard_of [entry_abc])"
  by (simp_all add: Clean_enabled IsEnabled_lps_on panels_of_dashboard_of
      clean_entry_abc_expanded clean_entry_abc put_panels_dashboard_of)

section \<open>The feature gate\<close>

lemma disabled_noop:
  assumes "\<not> IsEnabled lps"
  shows "LoadLibraryPanelsForDashboard lps store dash = (None, dash, store)"
    and "CleanLibraryPanelsForDashboard lps dash = (None, dash)"
    and "ConnectLibraryPanelsForDashboard lps c store dash = (None, dash, store)"
  using assms
  by (simp_all add: LoadLibraryPanelsForDashboard_def CleanLibraryPanelsForDashboard_def
      ConnectLibraryPanelsForDashboard_def)

text \<open>
  C9. When the feature flag is off, Expand, Collapse and Link return at once with no
  error, hand the dashboard back as it was, and leave the store untouched: no call to it
  is recorded and no table changes.
\<close>

theorem feature_disabled_is_noop:
  assumes "\<not> IsEnabled lps"
  shows "LoadLibraryPanelsForDashboard lps store dash = (None, dash, store) \<and>
         CleanLibraryPanelsForDashboard lps dash = (None, dash) \<and>
         ConnectLibraryPanelsForDashboard lps c store dash = (None, dash, store)"
  using disabled_noop [OF assms] by simp

theorem feature_disabled_is_noop_witness:
  "\<not> IsEnabled lps_off \<and>
   LoadLibraryPanelsForDashboard lps_off store_abc (dashboard_of [entry_abc]) =
     (None, dashboard_of [entry_abc], store_abc) \<and>
   CleanLibraryPanelsForDashboard lps_off (dashboard_of [entry_abc]) =
     (None, dashboard_of [entry_abc]) \<and>
   ConnectLibraryPanelsForDashboard lps_off admin store_abc (dashboard_of [entry_abc]) =
     (None, dashboard_of [entry_abc], store_abc)"
proof -
  have off: "\<not> IsEnabled lps_off"
    by (simp add: IsEnabled_def lps_off_def)
  from feature_disabled_is_noop [OF off, of store_abc "dashboard_of [entry_abc]" admin] off
  show ?thesis by simp
qed

text \<open>
  C10. A service without a configuration object (\<open>Cfg\<close> is nil) is not enabled:
  \<open>IsEnabled\<close> answers false instead of failing, and so Expand, Collapse and Link are
  no-ops without error on every dashboard.
\<close>

theorem nil_Cfg_is_disabled:
  assumes "Cfg lps = None"
  shows "\<not> IsEnabled lps \<and>
         LoadLibraryPanelsForDashboard lps store dash = (None, dash, store) \<and>
         CleanLibraryPanelsForDashboard lps dash = (None, dash) \<and>
         ConnectLibraryPanelsForDashboard lps c store dash = (None, dash, store)"
proof -
  from assms have off: "\<not> IsEnabled lps"
    by (simp add: IsEnabled_def)
  from off disabled_noop [OF off] show ?thesis by simp
qed

theorem nil_Cfg_is_disabled_witness:
  "Cfg lps_unconfigured = None \<and> \<not> IsEnabled lps_unconfigured \<and>
   LoadLibraryPanelsForDashboard lps_unconfigured store_abc (dashboard_of [entry_abc]) =
     (None, dashboard_of [entry_abc], store_abc) \<and>
   CleanLibraryPanelsForDashboard lps_unconfigured (dashboard_of [entry_abc]) =
     (None, dashboard_of [entry_abc]) \<and>
   ConnectLibraryPanelsForDashboard lps_unconfigured admin store_abc (dashboard_of [entry_abc]) =
     (None, dashboard_of [entry_abc], store_abc)"
proof -
  have nil: "Cfg lps_unconfigured = None"
    by (simp add: lps_unconfigured_def)
  from nil_Cfg_is_disabled [OF nil, of store_abc "dashboard_of [entry_abc]" admin] nil
  show ?thesis by simp
qed

section \<open>Collapse\<close>

text \<open>
  C4 (as amended). With the feature enabled, Collapse replaces every entry that carries
  a library reference with non-empty uid and name, and whose preceding entries are all
  collapsible, wholesale by exactly \<open>{id, gridPos, libraryPanel: {uid, name}}\<close>: the
  id is the entry's id read as an \<open>int64\<close>, the array index when there is none;
  every other field of the entry is gone. An entry without a library reference stands
  unchanged after the call, whatever the other entries are.
\<close>

theorem collapse_replaces_reached_entries:
  assumes "IsEnabled lps"
  shows "(\<forall>i<length (panels_of dash).
            is_library_panel (panels_of dash ! i) \<and>
            uid_of (panels_of dash ! i) \<noteq> [] \<and> name_of (panels_of dash ! i) \<noteq> [] \<and>
            (\<forall>j<i. cleanable (panels_of dash ! j)) \<longrightarrow>
            panels_of (snd (CleanLibraryPanelsForDashboard lps dash)) ! i =
              JObj (fmap_of_list
                [(''id'', JNum (MustInt64 (int i) (Get ''id'' (panels_of dash ! i)))),
                 (''gridPos'', MustMap (Get ''gridPos'' (panels_of dash ! i))),
                 (''libraryPanel'',
                    JObj (fmap_of_list
                      [(''uid'', JStr (uid_of (panels_of dash ! i))),
                       (''name'', JStr (name_of (panels_of dash ! i)))]))])) \<and>
         (\<forall>i<length (panels_of dash).
            \<not> is_library_panel (panels_of dash ! i) \<longrightarrow>
            panels_of (snd (CleanLibraryPanelsForDashboard lps dash)) ! i = panels_of dash ! i)"
proof (intro conjI allI impI)
  fix i
  assume i: "i < length (panels_of dash)"
    and linked: "is_library_panel (panels_of dash ! i) \<and>
      uid_of (panels_of dash ! i) \<noteq> [] \<and> name_of (panels_of dash ! i) \<noteq> [] \<and>
      (\<forall>j<i. cleanable (panels_of dash ! j))"
  let ?p = "panels_of dash ! i"
  let ?min = "JObj (fmap_of_list
                [(''id'', JNum (MustInt64 (int i) (Get ''id'' ?p))),
                 (''gridPos'', MustMap (Get ''gridPos'' ?p)),
                 (''libraryPanel'',
                    JObj (fmap_of_list
                      [(''uid'', JStr (uid_of ?p)), (''name'', JStr (name_of ?p))]))])"
  from linked have "clean_entry i ?p = Inr ?min"
    by (simp add: clean_entry_def)
  moreover from linked have "\<forall>j<i. \<exists>y. clean_entry (0 + j) (panels_of dash ! j) = Inr y"
    using cleanable_iff by auto
  ultimately have "snd (run_entries clean_entry 0 (panels_of dash)) ! i = ?min"
    using i by (intro run_entries_reached) simp_all
  then show "panels_of (snd (CleanLibraryPanelsForDashboard lps dash)) ! i = ?min"
    using assms by (simp add: Clean_panels)
next
  fix i
  assume i: "i < length (panels_of dash)" and plain: "\<not> is_library_panel (panels_of dash ! i)"
  then have "snd (run_entries clean_entry 0 (panels_of dash)) ! i = panels_of dash ! i"
    by (intro run_entries_kept) (simp_all add: clean_entry_plain)
  then show "panels_of (snd (CleanLibraryPanelsForDashboard lps dash)) ! i = panels_of dash ! i"
    using assms by (simp add: Clean_panels)
qed

theorem collapse_replaces_reached_entries_witness:
  "IsEnabled lps_on \<and>
   panels_of (snd (CleanLibraryPanelsForDashboard lps_on
      (dashboard_of [entry_plain, entry_abc_expanded]))) ! 0 = entry_plain \<and>
   panels_of (snd (CleanLibraryPanelsForDashboard lps_on
      (dashboard_of [entry_plain, entry_abc_expanded]))) ! 1 = entry_abc_current"
proof -
  let ?d = "dashboard_of [entry_plain, entry_abc_expanded]"
  let ?out = "panels_of (snd (CleanLibraryPanelsForDashboard lps_on ?d))"
  note inst = collapse_replaces_reached_entries [OF IsEnabled_lps_on, of ?d]
  from inst have "?out ! 0 = entry_plain"
    by (simp add: panels_of_dashboard_of entry_plain_facts)
  moreover from inst have "?out ! 1 = entry_abc_current"
    by (simp add: panels_of_dashboard_of entry_abc_expanded_facts entry_plain_facts
        cleanable_def MustMap_gridPos0 MustInt64_def entry_abc_current_def)
  ultimately show ?thesis
    using IsEnabled_lps_on by simp
qed

text \<open>
  Without the condition on the preceding entries the statement fails: the loop returns
  at the first malformed entry (lines 120-126), so a well-formed library entry behind it
  is not replaced. In the dashboard \<open>[entry_no_uid, entry_abc_expanded]\<close> the second
  entry has a uid and a name, Collapse returns "found a library panel without uid" and
  that entry still holds its \<open>type\<close> field; its minimal form would be
  \<open>entry_abc_current\<close>.
\<close>

theorem collapse_stops_at_failing_entry:
  "IsEnabled lps_on \<and>
   panels_of (dashboard_of [entry_no_uid, entry_abc_expanded]) ! 1 = entry_abc_expanded \<and>
   is_library_panel entry_abc_expanded \<and>
   uid_of entry_abc_expanded \<noteq> [] \<and> name_of entry_abc_expanded \<noteq> [] \<and>
   CleanLibraryPanelsForDashboard lps_on (dashboard_of [entry_no_uid, entry_abc_expanded]) =
     (Some ErrNoUid, dashboard_of [entry_no_uid, entry_abc_expanded]) \<and>
   panels_of (snd (CleanLibraryPanelsForDashboard lps_on
      (dashboard_of [entry_no_uid, entry_abc_expanded]))) ! 1 \<noteq> entry_abc_current \<and>
   Get ''type'' (panels_of (snd (CleanLibraryPanelsForDashboard lps_on
      (dashboard_of [entry_no_uid, entry_abc_expanded]))) ! 1) = JStr ''graph''"
  using entries_differ
  by (simp add: IsEnabled_lps_on panels_of_dashboard_of entry_abc_expanded_facts
      Clean_enabled clean_entry_def entry_no_uid_facts put_panels_dashboard_of)

section \<open>A call that fails\<close>

text \<open>
  C2 (as amended). Expand and Collapse write into the dashboard as they go and do not
  undo anything. When one of them returns an error, the caller gets the error, and the
  dashboard is left with every entry before the failing one already rewritten, the
  failing entry and all later ones as they were, and everything outside the panel array
  as it was. When Expand fails in the panel lookup, before the loop, the dashboard is
  unchanged.
\<close>

theorem failed_call_leaves_earlier_entries_rewritten:
  "(fst (LoadLibraryPanelsForDashboard lps store dash) = Some e \<longrightarrow>
      (if online store
       then \<exists>k<length (panels_of dash). \<exists>new.
              expand_entry (linked_panels store (Id_dash dash)) (panels_of dash ! k) = Inl e \<and>
              fst (snd (LoadLibraryPanelsForDashboard lps store dash)) = put_panels new dash \<and>
              rewritten_up_to (\<lambda>_. expand_entry (linked_panels store (Id_dash dash))) k
                (panels_of dash) new
       else e = ErrStore \<and> fst (snd (LoadLibraryPanelsForDashboard lps store dash)) = dash)) \<and>
   (fst (CleanLibraryPanelsForDashboard lps dash) = Some e' \<longrightarrow>
      (\<exists>k<length (panels_of dash). \<exists>new.
          clean_entry k (panels_of dash ! k) = Inl e' \<and>
          snd (CleanLibraryPanelsForDashboard lps dash) = put_panels new dash \<and>
          rewritten_up_to clean_entry k (panels_of dash) new))"
proof (intro conjI impI)
  assume failed: "fst (LoadLibraryPanelsForDashboard lps store dash) = Some e"
  then have on: "IsEnabled lps"
    by (auto simp: LoadLibraryPanelsForDashboard_def split: if_splits)
  let ?f = "\<lambda>_::nat. expand_entry (linked_panels store (Id_dash dash))"
  show "if online store
       then \<exists>k<length (panels_of dash). \<exists>new.
              expand_entry (linked_panels store (Id_dash dash)) (panels_of dash ! k) = Inl e \<and>
              fst (snd (LoadLibraryPanelsForDashboard lps store dash)) = put_panels new dash \<and>
              rewritten_up_to ?f k (panels_of dash) new
       else e = ErrStore \<and> fst (snd (LoadLibraryPanelsForDashboard lps store dash)) = dash"
  proof (cases "online store")
    case False
    with on failed show ?thesis by (simp add: Load_offline)
  next
    case True
    with on failed have "fst (run_entries ?f 0 (panels_of dash)) = Some e"
      by (simp add: Load_fst)
    from run_entries_rewritten [OF this] True on show ?thesis
      by (auto simp: Load_dash)
  qed
next
  assume failed: "fst (CleanLibraryPanelsForDashboard lps dash) = Some e'"
  then have on: "IsEnabled lps"
    by (auto simp: CleanLibraryPanelsForDashboard_def split: if_splits)
  with failed have "fst (run_entries clean_entry 0 (panels_of dash)) = Some e'"
    by (simp add: Clean_fst)
  from run_entries_rewritten [OF this] on
  show "\<exists>k<length (panels_of dash). \<exists>new.
          clean_entry k (panels_of dash ! k) = Inl e' \<and>
          snd (CleanLibraryPanelsForDashboard lps dash) = put_panels new dash \<and>
          rewritten_up_to clean_entry k (panels_of dash) new"
    by (auto simp: Clean_snd)
qed

theorem failed_call_leaves_earlier_entries_rewritten_witness:
  "fst (LoadLibraryPanelsForDashboard lps_on store_abc (dashboard_of [entry_abc, entry_no_uid])) =
     Some ErrNoUid \<and>
   fst (CleanLibraryPanelsForDashboard lps_on (dashboard_of [entry_abc, entry_no_uid])) =
     Some ErrNoUid \<and>
   online store_abc \<and>
   (\<exists>k<length (panels_of (dashboard_of [entry_abc, entry_no_uid])). \<exists>new.
      expand_entry (linked_panels store_abc (Id_dash (dashboard_of [entry_abc, entry_no_uid])))
        (panels_of (dashboard_of [entry_abc, entry_no_uid]) ! k) = Inl ErrNoUid \<and>
      fst (snd (LoadLibraryPanelsForDashboard lps_on store_abc
                 (dashboard_of [entry_abc, entry_no_uid]))) =
        put_panels new (dashboard_of [entry_abc, entry_no_uid]) \<and>
      rewritten_up_to
        (\<lambda>_. expand_entry
           (linked_panels store_abc (Id_dash (dashboard_of [entry_abc, entry_no_uid])))) k
        (panels_of (dashboard_of [entry_abc, entry_no_uid])) new) \<and>
   (\<exists>k<length (panels_of (dashboard_of [entry_abc, entry_no_uid])). \<exists>new.
      clean_entry k (panels_of (dashboard_of [entry_abc, entry_no_uid]) ! k) = Inl ErrNoUid \<and>
      snd (CleanLibraryPanelsForDashboard lps_on (dashboard_of [entry_abc, entry_no_uid])) =
        put_panels new (dashboard_of [entry_abc, entry_no_uid]) \<and>
      rewritten_up_to clean_entry k (panels_of (dashboard_of [entry_abc, entry_no_uid])) new)"
proof -
  have load: "fst (LoadLibraryPanelsForDashboard lps_on store_abc
                (dashboard_of [entry_abc, entry_no_uid])) = Some ErrNoUid"
    by (simp add: Load_abc_then_no_uid)
  have clean: "fst (CleanLibraryPanelsForDashboard lps_on
                (dashboard_of [entry_abc, entry_no_uid])) = Some ErrNoUid"
    by (simp add: Clean_abc_then_no_uid)
  have online: "online store_abc"
    by (simp add: store_abc_def)
  from failed_call_leaves_earlier_entries_rewritten
    [of lps_on store_abc "dashboard_of [entry_abc, entry_no_uid]" ErrNoUid ErrNoUid]
  show ?thesis
    by (simp only: load clean online if_True simp_thms)
qed

text \<open>
  That a failing call leaves the dashboard unchanged does not hold. In
  \<open>[entry_abc, entry_no_uid]\<close> Expand rewrites the first entry (lines 89-98) and then
  returns "found a library panel without uid" at the second: the dashboard now holds the
  expanded first entry. Collapse on \<open>[entry_abc_expanded, entry_no_uid]\<close> likewise
  leaves the first entry collapsed.
\<close>

theorem failed_expand_changes_dashboard:
  "LoadLibraryPanelsForDashboard lps_on store_abc (dashboard_of [entry_abc, entry_no_uid]) =
     (Some ErrNoUid, dashboard_of [entry_abc_expanded, entry_no_uid],
      store_abc\<lparr>accesses := [FetchLinkedPanels 7]\<rparr>) \<and>
   dashboard_of [entry_abc_expanded, entry_no_uid] \<noteq> dashboard_of [entry_abc, entry_no_uid] \<and>
   CleanLibraryPanelsForDashboard lps_on (dashboard_of [entry_abc_expanded, entry_no_uid]) =
     (Some ErrNoUid, dashboard_of [entry_abc_current, entry_no_uid]) \<and>
   dashboard_of [entry_abc_current, entry_no_uid] \<noteq>
     dashboard_of [entry_abc_expanded, entry_no_uid]"
  using entries_differ
  by (simp add: Load_abc_then_no_uid Clean_expanded_then_no_uid dashboard_of_eq)

section \<open>Link on an unsaved dashboard\<close>

text \<open>
  C7 (as amended). With the feature enabled, Link fails with the validation error
  "dashboard is missing an ID or uid" whenever the dashboard has a zero internal
  identifier or an empty uid; the check of line 149 comes before the panel array is read
  and before any call to the store, so the dashboard and the store (tables and recorded
  calls) are as they were and no link row is created.
\<close>

theorem link_rejects_unsaved_dashboard:
  assumes "IsEnabled lps" and "Id_dash dash = 0 \<or> Uid dash = []"
  shows "ConnectLibraryPanelsForDashboard lps c store dash = (Some ErrMissingID, dash, store)"
  using assms by (auto simp: ConnectLibraryPanelsForDashboard_def)

theorem link_rejects_unsaved_dashboard_witness:
  "IsEnabled lps_on \<and> (Id_dash unsaved_dashboard = 0 \<or> Uid unsaved_dashboard = []) \<and>
   ConnectLibraryPanelsForDashboard lps_on admin store_unlinked unsaved_dashboard =
     (Some ErrMissingID, unsaved_dashboard, store_unlinked)"
proof -
  have unsaved: "Id_dash unsaved_dashboard = 0 \<or> Uid unsaved_dashboard = []"
    by (simp add: unsaved_dashboard_def)
  from link_rejects_unsaved_dashboard [OF IsEnabled_lps_on unsaved, of admin store_unlinked]
    IsEnabled_lps_on unsaved
  show ?thesis by simp
qed

text \<open>
  Without the condition on the feature the statement fails: the feature gate of lines
  145-147 comes first, so with the feature disabled Link on a dashboard with identifier
  0 and empty uid returns no error.
\<close>

theorem link_disabled_accepts_unsaved_dashboard:
  "Id_dash unsaved_dashboard = 0 \<and> Uid unsaved_dashboard = [] \<and>
   ConnectLibraryPanelsForDashboard lps_off admin store_unlinked unsaved_dashboard =
     (None, unsaved_dashboard, store_unlinked)"
  by (simp add: unsaved_dashboard_def ConnectLibraryPanelsForDashboard_def IsEnabled_def
      lps_off_def)

section \<open>Expand\<close>

text \<open>
  C3 (as amended). With the feature enabled and the panel lookup done, Expand replaces
  every library entry whose non-empty uid the lookup finds with a content blob that is
  a JSON object, and whose preceding entries can all be expanded, by that object with
  three fields written over it: \<open>gridPos\<close> is the entry's own, \<open>id\<close> is the
  entry's own id read as an \<open>int64\<close> (0 when there is none) and
  \<open>libraryPanel\<close> is the uid with the library panel's current name, whatever name
  the entry carried. An entry without a library reference stands unchanged after the
  call.
\<close>

theorem expand_replaces_reached_entries:
  assumes "IsEnabled lps"
    and "fst (getLibraryPanelsForDashboardID store (Id_dash dash)) = Inr libraryPanels"
  shows "(\<forall>i<length (panels_of dash). \<forall>libraryPanelInDB model.
            is_library_panel (panels_of dash ! i) \<and> uid_of (panels_of dash ! i) \<noteq> [] \<and>
            libraryPanels (uid_of (panels_of dash ! i)) = Some libraryPanelInDB \<and>
            Model libraryPanelInDB = Blob (JObj model) \<and>
            (\<forall>j<i. expandable libraryPanels (panels_of dash ! j)) \<longrightarrow>
            panels_of (fst (snd (LoadLibraryPanelsForDashboard lps store dash))) ! i =
              JObj (fmupd ''libraryPanel''
                      (JObj (fmap_of_list
                         [(''uid'', JStr (uid_of (panels_of dash ! i))),
                          (''name'', JStr (Name libraryPanelInDB))]))
                   (fmupd ''id'' (JNum (MustInt64 0 (Get ''id'' (panels_of dash ! i))))
                   (fmupd ''gridPos'' (MustMap (Get ''gridPos'' (panels_of dash ! i)))
                      model)))) \<and>
         (\<forall>i<length (panels_of dash).
            \<not> is_library_panel (panels_of dash ! i) \<longrightarrow>
            panels_of (fst (snd (LoadLibraryPanelsForDashboard lps store dash))) ! i =
              panels_of dash ! i)"
proof -
  from assms(2) have online: "online store"
    and lib: "libraryPanels = linked_panels store (Id_dash dash)"
    by (simp_all add: lookup_Inr)
  let ?f = "\<lambda>_::nat. expand_entry libraryPanels"
  have out: "panels_of (fst (snd (LoadLibraryPanelsForDashboard lps store dash))) =
               snd (run_entries ?f 0 (panels_of dash))"
    using assms(1) online lib by (simp add: Load_panels)
  show ?thesis
  proof (intro conjI allI impI)
    fix i libraryPanelInDB model
    assume i: "i < length (panels_of dash)"
      and linked: "is_library_panel (panels_of dash ! i) \<and> uid_of (panels_of dash ! i) \<noteq> [] \<and>
            libraryPanels (uid_of (panels_of dash ! i)) = Some libraryPanelInDB \<and>
            Model libraryPanelInDB = Blob (JObj model) \<and>
            (\<forall>j<i. expandable libraryPanels (panels_of dash ! j))"
    let ?p = "panels_of dash ! i"
    let ?new = "JObj (fmupd ''libraryPanel''
                      (JObj (fmap_of_list
                         [(''uid'', JStr (uid_of ?p)), (''name'', JStr (Name libraryPanelInDB))]))
                   (fmupd ''id'' (JNum (MustInt64 0 (Get ''id'' ?p)))
                   (fmupd ''gridPos'' (MustMap (Get ''gridPos'' ?p)) model)))"
    from linked lib have "UID libraryPanelInDB = uid_of ?p"
      by (auto dest: linked_panels_UID)
    with linked have "?f (0 + i) ?p = Inr ?new"
      by (simp add: expand_entry_def Set_def)
    moreover from linked have "\<forall>j<i. \<exists>y. ?f (0 + j) (panels_of dash ! j) = Inr y"
      using expandable_iff by auto
    ultimately have "snd (run_entries ?f 0 (panels_of dash)) ! i = ?new"
      using i by (intro run_entries_reached) simp_all
    then show "panels_of (fst (snd (LoadLibraryPanelsForDashboard lps store dash))) ! i = ?new"
      by (simp add: out)
  next
    fix i
    assume i: "i < length (panels_of dash)" and plain: "\<not> is_library_panel (panels_of dash ! i)"
    then have "snd (run_entries ?f 0 (panels_of dash)) ! i = panels_of dash ! i"
      by (intro run_entries_kept) (simp_all add: expand_entry_plain)
    then show "panels_of (fst (snd (LoadLibraryPanelsForDashboard lps store dash))) ! i =
                 panels_of dash ! i"
      by (simp add: out)
  qed
qed

theorem expand_replaces_reached_entries_witness:
  "IsEnabled lps_on \<and>
   fst (getLibraryPanelsForDashboardID store_abc (Id_dash (dashboard_of [entry_plain, entry_abc]))) =
     Inr [''abc'' \<mapsto> panel_abc] \<and>
   panels_of (fst (snd (LoadLibraryPanelsForDashboard lps_on store_abc
      (dashboard_of [entry_plain, entry_abc])))) ! 0 = entry_plain \<and>
   panels_of (fst (snd (LoadLibraryPanelsForDashboard lps_on store_abc
      (dashboard_of [entry_plain, entry_abc])))) ! 1 = entry_abc_expanded"
proof -
  let ?d = "dashboard_of [entry_plain, entry_abc]"
  let ?out = "panels_of (fst (snd (LoadLibraryPanelsForDashboard lps_on store_abc ?d)))"
  note inst = expand_replaces_reached_entries [OF IsEnabled_lps_on lookup_store_abc,
      of "[entry_plain, entry_abc]"]
  from inst have "?out ! 0 = entry_plain"
    by (simp add: panels_of_dashboard_of entry_plain_facts)
  moreover
  from inst [THEN conjunct1, rule_format, of 1 panel_abc
      "fmap_of_list [(''type'', JStr ''graph'')]"]
  have "?out ! 1 = entry_abc_expanded"
    using Set_chain_abc
    by (simp add: panels_of_dashboard_of entry_abc_facts entry_plain_facts expandable_def
        MustMap_gridPos0 MustInt64_def panel_abc_def Set_def)
  ultimately show ?thesis
    using IsEnabled_lps_on lookup_store_abc by simp
qed

text \<open>
  Without the condition on the preceding entries the statement fails: in
  \<open>[entry_no_uid, entry_abc]\<close> the second entry has the uid \<open>abc\<close>, which the
  lookup finds, but Expand returns at the first entry (lines 68-70) and the second one
  is not replaced.
\<close>

theorem expand_stops_at_failing_entry:
  "IsEnabled lps_on \<and>
   fst (getLibraryPanelsForDashboardID store_abc (Id_dash (dashboard_of [entry_no_uid, entry_abc]))) =
     Inr [''abc'' \<mapsto> panel_abc] \<and>
   panels_of (dashboard_of [entry_no_uid, entry_abc]) ! 1 = entry_abc \<and>
   is_library_panel entry_abc \<and> uid_of entry_abc = ''abc'' \<and>
   LoadLibraryPanelsForDashboard lps_on store_abc (dashboard_of [entry_no_uid, entry_abc]) =
     (Some ErrNoUid, dashboard_of [entry_no_uid, entry_abc],
      store_abc\<lparr>accesses := [FetchLinkedPanels 7]\<rparr>) \<and>
   panels_of (fst (snd (LoadLibraryPanelsForDashboard lps_on store_abc
      (dashboard_of [entry_no_uid, entry_abc])))) ! 1 \<noteq> entry_abc_expanded"
  using entries_differ
  by (simp add: IsEnabled_lps_on lookup_store_abc panels_of_dashboard_of entry_abc_facts
      Load_no_uid_first)

section \<open>Which error Expand and Collapse report\<close>

text \<open>
  C5 (as amended). With the feature enabled, Expand fails with the dangling-reference
  error ("found a library panel that does not exists as a connection") if and only if the
  panel lookup succeeds and the first entry that cannot be expanded is a library entry
  with a non-empty uid that is absent from the lookup result: every entry before it is
  expandable.
\<close>

theorem expand_dangling_reference_iff:
  assumes "IsEnabled lps"
  shows "fst (LoadLibraryPanelsForDashboard lps store dash) = Some ErrNotConnected \<longleftrightarrow>
         (\<exists>libraryPanels.
            fst (getLibraryPanelsForDashboardID store (Id_dash dash)) = Inr libraryPanels \<and>
            (\<exists>i<length (panels_of dash).
               is_library_panel (panels_of dash ! i) \<and> uid_of (panels_of dash ! i) \<noteq> [] \<and>
               libraryPanels (uid_of (panels_of dash ! i)) = None \<and>
               (\<forall>j<i. expandable libraryPanels (panels_of dash ! j))))"
proof (cases "online store")
  case False
  with assms show ?thesis
    by (simp add: Load_offline lookup_Inr)
next
  case True
  let ?lib = "linked_panels store (Id_dash dash)"
  let ?f = "\<lambda>_::nat. expand_entry ?lib"
  have fst: "fst (LoadLibraryPanelsForDashboard lps store dash) =
               fst (run_entries ?f 0 (panels_of dash))"
    using assms True by (simp add: Load_fst)
  have "fst (run_entries ?f 0 (panels_of dash)) = Some ErrNotConnected \<longleftrightarrow>
        (\<exists>i<length (panels_of dash).
           is_library_panel (panels_of dash ! i) \<and> uid_of (panels_of dash ! i) \<noteq> [] \<and>
           ?lib (uid_of (panels_of dash ! i)) = None \<and>
           (\<forall>j<i. expandable ?lib (panels_of dash ! j)))"
    (is "?L \<longleftrightarrow> ?R")
  proof
    assume ?L
    from run_entries_Some [OF this] show ?R
      by (auto simp: expandable_iff expand_entry_ErrNotConnected)
  next
    assume ?R
    then obtain i where "i < length (panels_of dash)"
      "expand_entry ?lib (panels_of dash ! i) = Inl ErrNotConnected"
      "\<forall>j<i. \<exists>y. expand_entry ?lib (panels_of dash ! j) = Inr y"
      by (auto simp: expandable_iff expand_entry_ErrNotConnected)
    then show ?L by (rule first_failure)
  qed
  with fst True show ?thesis
    by (simp add: lookup_Inr)
qed

theorem expand_dangling_reference_iff_witness:
  "IsEnabled lps_on \<and>
   fst (LoadLibraryPanelsForDashboard lps_on store_abc (dashboard_of [entry_abc, entry_dangling])) =
     Some ErrNotConnected"
proof -
  let ?d = "dashboard_of [entry_abc, entry_dangling]"
  have "\<exists>i<length (panels_of ?d).
          is_library_panel (panels_of ?d ! i) \<and> uid_of (panels_of ?d ! i) \<noteq> [] \<and>
          [''abc'' \<mapsto> panel_abc] (uid_of (panels_of ?d ! i)) = None \<and>
          (\<forall>j<i. expandable [''abc'' \<mapsto> panel_abc] (panels_of ?d ! j))"
    by (rule exI [of _ 1])
      (simp add: panels_of_dashboard_of entry_dangling_facts expandable_def entry_abc_facts
        panel_abc_def)
  with lookup_store_abc [of "[entry_abc, entry_dangling]"]
  have "\<exists>libraryPanels.
            fst (getLibraryPanelsForDashboardID store_abc (Id_dash ?d)) = Inr libraryPanels \<and>
            (\<exists>i<length (panels_of ?d).
               is_library_panel (panels_of ?d ! i) \<and> uid_of (panels_of ?d ! i) \<noteq> [] \<and>
               libraryPanels (uid_of (panels_of ?d ! i)) = None \<and>
               (\<forall>j<i. expandable libraryPanels (panels_of ?d ! j)))"
    by blast
  with expand_dangling_reference_iff [OF IsEnabled_lps_on, of store_abc ?d] IsEnabled_lps_on
  show ?thesis by blast
qed

text \<open>
  Without the condition on the preceding entries the equivalence fails from right to
  left: in
  \<open>[entry_no_uid, entry_dangling]\<close> the second entry has the uid \<open>zzz\<close>, absent
  from the lookup result, yet Expand fails at the first entry with "found a library panel
  without uid".
\<close>

theorem expand_reports_earlier_malformed_entry:
  "IsEnabled lps_on \<and>
   fst (getLibraryPanelsForDashboardID store_abc
          (Id_dash (dashboard_of [entry_no_uid, entry_dangling]))) =
     Inr [''abc'' \<mapsto> panel_abc] \<and>
   panels_of (dashboard_of [entry_no_uid, entry_dangling]) ! 1 = entry_dangling \<and>
   is_library_panel entry_dangling \<and> uid_of entry_dangling = ''zzz'' \<and>
   [''abc'' \<mapsto> panel_abc] ''zzz'' = None \<and>
   fst (LoadLibraryPanelsForDashboard lps_on store_abc
          (dashboard_of [entry_no_uid, entry_dangling])) = Some ErrNoUid \<and>
   fst (LoadLibraryPanelsForDashboard lps_on store_abc
          (dashboard_of [entry_no_uid, entry_dangling])) \<noteq> Some ErrNotConnected"
  by (simp add: IsEnabled_lps_on lookup_store_abc panels_of_dashboard_of entry_dangling_facts
      Load_no_uid_first)

text \<open>
  C6 (as amended). With the feature enabled, Expand fails whenever some library entry
  has an empty uid, and the error is the malformed-reference error ("found a library
  panel without uid") when the panel lookup succeeded and every entry before that one is
  expandable; otherwise the earlier failure is what Expand reports. Collapse fails with
  a malformed-reference error ("... without uid" or "... without name") exactly when some
  library entry has an empty uid or an empty name.
\<close>

theorem malformed_reference_errors:
  assumes "IsEnabled lps"
  shows "((\<exists>p \<in> set (panels_of dash). is_library_panel p \<and> uid_of p = []) \<longrightarrow>
            fst (LoadLibraryPanelsForDashboard lps store dash) \<noteq> None) \<and>
         (\<forall>libraryPanels.
            fst (getLibraryPanelsForDashboardID store (Id_dash dash)) = Inr libraryPanels \<and>
            (\<exists>i<length (panels_of dash).
               is_library_panel (panels_of dash ! i) \<and> uid_of (panels_of dash ! i) = [] \<and>
               (\<forall>j<i. expandable libraryPanels (panels_of dash ! j))) \<longrightarrow>
            fst (LoadLibraryPanelsForDashboard lps store dash) = Some ErrNoUid) \<and>
         ((\<exists>p \<in> set (panels_of dash). is_library_panel p \<and> (uid_of p = [] \<or> name_of p = [])) \<longleftrightarrow>
            fst (CleanLibraryPanelsForDashboard lps dash) = Some ErrNoUid \<or>
            fst (CleanLibraryPanelsForDashboard lps dash) = Some ErrNoName)"
proof (intro conjI allI impI)
  assume "\<exists>p \<in> set (panels_of dash). is_library_panel p \<and> uid_of p = []"
  then obtain i where i: "i < length (panels_of dash)"
    "is_library_panel (panels_of dash ! i)" "uid_of (panels_of dash ! i) = []"
    by (auto simp: in_set_conv_nth)
  show "fst (LoadLibraryPanelsForDashboard lps store dash) \<noteq> None"
  proof (cases "online store")
    case False
    with assms show ?thesis by (simp add: Load_offline)
  next
    case True
    from i have "expand_entry (linked_panels store (Id_dash dash)) (panels_of dash ! i) =
                   Inl ErrNoUid"
      by (simp add: expand_entry_ErrNoUid)
    with i(1) have "fst (run_entries (\<lambda>_. expand_entry (linked_panels store (Id_dash dash))) 0
                      (panels_of dash)) \<noteq> None"
      by (intro some_failure [where f = "\<lambda>_. expand_entry (linked_panels store (Id_dash dash))"])
    with assms True show ?thesis by (simp add: Load_fst)
  qed
next
  fix libraryPanels
  assume *: "fst (getLibraryPanelsForDashboardID store (Id_dash dash)) = Inr libraryPanels \<and>
            (\<exists>i<length (panels_of dash).
               is_library_panel (panels_of dash ! i) \<and> uid_of (panels_of dash ! i) = [] \<and>
               (\<forall>j<i. expandable libraryPanels (panels_of dash ! j)))"
  then have online: "online store" and lib: "libraryPanels = linked_panels store (Id_dash dash)"
    by (simp_all add: lookup_Inr)
  from * obtain i where "i < length (panels_of dash)"
    "expand_entry libraryPanels (panels_of dash ! i) = Inl ErrNoUid"
    "\<forall>j<i. \<exists>y. expand_entry libraryPanels (panels_of dash ! j) = Inr y"
    by (auto simp: expandable_iff expand_entry_ErrNoUid)
  then have "fst (run_entries (\<lambda>_. expand_entry libraryPanels) 0 (panels_of dash)) = Some ErrNoUid"
    by (rule first_failure)
  with assms online lib
  show "fst (LoadLibraryPanelsForDashboard lps store dash) = Some ErrNoUid"
    by (simp add: Load_fst)
next
  let ?r = "fst (run_entries clean_entry 0 (panels_of dash))"
  have fst: "fst (CleanLibraryPanelsForDashboard lps dash) = ?r"
    using assms by (simp add: Clean_fst)
  have "(\<exists>p \<in> set (panels_of dash). is_library_panel p \<and> (uid_of p = [] \<or> name_of p = [])) \<longleftrightarrow>
        (?r = Some ErrNoUid \<or> ?r = Some ErrNoName)" (is "?L \<longleftrightarrow> ?R")
  proof
    assume ?L
    then obtain i where i: "i < length (panels_of dash)"
      and bad: "is_library_panel (panels_of dash ! i) \<and>
                (uid_of (panels_of dash ! i) = [] \<or> name_of (panels_of dash ! i) = [])"
      by (auto simp: in_set_conv_nth)
    then have "\<exists>e. clean_entry i (panels_of dash ! i) = Inl e"
      by (auto simp: clean_entry_Inl)
    with i have "?r \<noteq> None"
      by (auto dest: some_failure)
    then obtain e where e: "?r = Some e" by auto
    from run_entries_Some [OF this] have "e = ErrNoUid \<or> e = ErrNoName"
      by (auto simp: clean_entry_Inl split: if_splits)
    with e show ?R by auto
  next
    assume ?R
    then obtain e where "?r = Some e" by auto
    from run_entries_Some [OF this] obtain k where k: "k < length (panels_of dash)"
      and "clean_entry (0 + k) (panels_of dash ! k) = Inl e" by blast
    then have "is_library_panel (panels_of dash ! k) \<and>
               (uid_of (panels_of dash ! k) = [] \<or> name_of (panels_of dash ! k) = [])"
      by (auto simp: clean_entry_Inl split: if_splits)
    with k show ?L
      using nth_mem by blast
  qed
  with fst show "(\<exists>p \<in> set (panels_of dash). is_library_panel p \<and> (uid_of p = [] \<or> name_of p = [])) \<longleftrightarrow>
            fst (CleanLibraryPanelsForDashboard lps dash) = Some ErrNoUid \<or>
            fst (CleanLibraryPanelsForDashboard lps dash) = Some ErrNoName"
    by simp
qed

theorem malformed_reference_errors_witness:
  "IsEnabled lps_on \<and>
   fst (getLibraryPanelsForDashboardID store_abc (Id_dash (dashboard_of [entry_abc, entry_no_uid]))) =
     Inr [''abc'' \<mapsto> panel_abc] \<and>
   (\<exists>p \<in> set (panels_of (dashboard_of [entry_abc, entry_no_uid])).
      is_library_panel p \<and> uid_of p = []) \<and>
   fst (LoadLibraryPanelsForDashboard lps_on store_abc (dashboard_of [entry_abc, entry_no_uid])) \<noteq>
     None \<and>
   fst (LoadLibraryPanelsForDashboard lps_on store_abc (dashboard_of [entry_abc, entry_no_uid])) =
     Some ErrNoUid \<and>
   (fst (CleanLibraryPanelsForDashboard lps_on (dashboard_of [entry_abc, entry_no_uid])) =
      Some ErrNoUid \<or>
    fst (CleanLibraryPanelsForDashboard lps_on (dashboard_of [entry_abc, entry_no_uid])) =
      Some ErrNoName)"
proof -
  let ?d = "dashboard_of [entry_abc, entry_no_uid]"
  note inst = malformed_reference_errors [OF IsEnabled_lps_on, of ?d store_abc]
  have some: "\<exists>p \<in> set (panels_of ?d). is_library_panel p \<and> uid_of p = []"
    by (simp add: panels_of_dashboard_of entry_no_uid_facts)
  then have some': "\<exists>p \<in> set (panels_of ?d). is_library_panel p \<and> (uid_of p = [] \<or> name_of p = [])"
    by blast
  have reached: "\<exists>i<length (panels_of ?d).
          is_library_panel (panels_of ?d ! i) \<and> uid_of (panels_of ?d ! i) = [] \<and>
          (\<forall>j<i. expandable [''abc'' \<mapsto> panel_abc] (panels_of ?d ! j))"
    by (rule exI [of _ 1])
      (simp add: panels_of_dashboard_of entry_no_uid_facts expandable_def entry_abc_facts
        panel_abc_def)
  from inst some have "fst (LoadLibraryPanelsForDashboard lps_on store_abc ?d) \<noteq> None"
    by blast
  moreover from inst lookup_store_abc [of "[entry_abc, entry_no_uid]"] reached
  have "fst (LoadLibraryPanelsForDashboard lps_on store_abc ?d) = Some ErrNoUid"
    by blast
  moreover from inst some'
  have "fst (CleanLibraryPanelsForDashboard lps_on ?d) = Some ErrNoUid \<or>
        fst (CleanLibraryPanelsForDashboard lps_on ?d) = Some ErrNoName"
    by blast
  ultimately show ?thesis
    using IsEnabled_lps_on lookup_store_abc [of "[entry_abc, entry_no_uid]"] some by blast
qed

text \<open>
  Without the condition on the preceding entries the Expand half fails: in
  \<open>[entry_dangling, entry_no_uid]\<close> the second entry has an empty uid, but Expand
  fails at the first entry, with the dangling-reference error.
\<close>

theorem expand_reports_earlier_dangling_entry:
  "IsEnabled lps_on \<and>
   panels_of (dashboard_of [entry_dangling, entry_no_uid]) ! 1 = entry_no_uid \<and>
   is_library_panel entry_no_uid \<and> uid_of entry_no_uid = [] \<and>
   fst (LoadLibraryPanelsForDashboard lps_on store_abc
          (dashboard_of [entry_dangling, entry_no_uid])) = Some ErrNotConnected \<and>
   fst (LoadLibraryPanelsForDashboard lps_on store_abc
          (dashboard_of [entry_dangling, entry_no_uid])) \<noteq> Some ErrNoUid"
  by (simp add: IsEnabled_lps_on panels_of_dashboard_of entry_no_uid_facts Load_dangling_first)

section \<open>Expand, then Collapse\<close>

text \<open>One entry: collapsing the expanded entry gives what collapsing the entry gives.\<close>

lemma clean_expanded_entry:
  assumes "is_library_panel p" and "uid_of p \<noteq> []" and "name_of p \<noteq> []"
    and "Get ''id'' p = JNum n" and "- (2 ^ 63) \<le> n" and "n < 2 ^ 63"
    and "UID lp = uid_of p" and "Name lp = name_of p"
  shows "clean_entry i
           (Set ''libraryPanel''
              (JObj (fmap_of_list [(''uid'', JStr (UID lp)), (''name'', JStr (Name lp))]))
            (Set ''id'' (JNum (MustInt64 0 (Get ''id'' p)))
            (Set ''gridPos'' (MustMap (Get ''gridPos'' p)) (JObj m)))) = clean_entry i p"
  using assms
  by (simp add: clean_entry_def Set_def is_library_panel_def uid_of_def name_of_def Get_def
      NewFromAny_def Interface_def MustString_def MustInt64_def MustMap_MustMap)

text \<open>
  C1 (as amended). Let the panel lookup succeed and let every library entry of the
  dashboard have a non-empty uid that the lookup finds, and moreover an integer id (in
  the \<open>int64\<close> range), a non-empty name equal to the library panel's current name,
  and a library panel whose content blob is a JSON object. Then Expand returns no error
  and Collapse after Expand gives what Collapse gives: the same error value and the same
  dashboard.
\<close>

theorem collapse_expand_roundtrip:
  assumes "fst (getLibraryPanelsForDashboardID store (Id_dash dash)) = Inr libraryPanels"
    and "\<forall>p \<in> set (panels_of dash). is_library_panel p \<longrightarrow>
           uid_of p \<noteq> [] \<and> name_of p \<noteq> [] \<and>
           (\<exists>n. Get ''id'' p = JNum n \<and> - (2 ^ 63) \<le> n \<and> n < 2 ^ 63) \<and>
           (\<exists>libraryPanelInDB model.
              libraryPanels (uid_of p) = Some libraryPanelInDB \<and>
              Name libraryPanelInDB = name_of p \<and>
              Model libraryPanelInDB = Blob (JObj model))"
  shows "fst (LoadLibraryPanelsForDashboard lps store dash) = None \<and>
         CleanLibraryPanelsForDashboard lps
           (fst (snd (LoadLibraryPanelsForDashboard lps store dash))) =
         CleanLibraryPanelsForDashboard lps dash"
proof (cases "IsEnabled lps")
  case False
  then show ?thesis
    by (simp add: disabled_noop)
next
  case True
  from assms(1) have online: "online store"
    and lib: "libraryPanels = linked_panels store (Id_dash dash)"
    by (simp_all add: lookup_Inr)
  let ?ps = "panels_of dash"
  let ?f = "\<lambda>_::nat. expand_entry libraryPanels"
  have entry: "\<exists>y. expand_entry libraryPanels (?ps ! k) = Inr y \<and>
                 clean_entry k y = clean_entry k (?ps ! k) \<and> (\<exists>z. clean_entry k (?ps ! k) = Inr z)"
    if k: "k < length ?ps" for k
  proof (cases "is_library_panel (?ps ! k)")
    case False
    then show ?thesis
      by (simp add: expand_entry_plain clean_entry_plain)
  next
    case linked: True
    from k have "?ps ! k \<in> set ?ps" by simp
    with assms(2) linked obtain n lp model where
      p: "uid_of (?ps ! k) \<noteq> []" "name_of (?ps ! k) \<noteq> []"
         "Get ''id'' (?ps ! k) = JNum n" "- (2 ^ 63) \<le> n" "n < 2 ^ 63"
         "libraryPanels (uid_of (?ps ! k)) = Some lp" "Name lp = name_of (?ps ! k)"
         "Model lp = Blob (JObj model)"
      by blast
    from p(6) lib have uid: "UID lp = uid_of (?ps ! k)"
      by (auto dest: linked_panels_UID)
    let ?y = "Set ''libraryPanel''
              (JObj (fmap_of_list [(''uid'', JStr (UID lp)), (''name'', JStr (Name lp))]))
            (Set ''id'' (JNum (MustInt64 0 (Get ''id'' (?ps ! k))))
            (Set ''gridPos'' (MustMap (Get ''gridPos'' (?ps ! k))) (JObj model)))"
    have "expand_entry libraryPanels (?ps ! k) = Inr ?y"
      using linked p by (simp add: expand_entry_def)
    moreover have "clean_entry k ?y = clean_entry k (?ps ! k)"
      using linked p uid by (intro clean_expanded_entry)
    moreover have "\<exists>z. clean_entry k (?ps ! k) = Inr z"
      using linked p by (simp add: clean_entry_def)
    ultimately show ?thesis by blast
  qed
  have expandable: "\<forall>k<length ?ps. \<exists>y. ?f (0 + k) (?ps ! k) = Inr y"
    using entry by auto
  then have ok: "fst (run_entries ?f 0 ?ps) = None"
    by (simp add: run_entries_None)
  let ?qs = "snd (run_entries ?f 0 ?ps)"
  have len: "length ?qs = length ?ps" by (rule run_entries_length)
  have same: "\<exists>y. clean_entry (0 + k) (?qs ! k) = Inr y \<and> clean_entry (0 + k) (?ps ! k) = Inr y"
    if k: "k < length ?ps" for k
  proof -
    from entry [OF k] obtain y z where y: "expand_entry libraryPanels (?ps ! k) = Inr y"
      "clean_entry k y = clean_entry k (?ps ! k)" "clean_entry k (?ps ! k) = Inr z"
      by blast
    from expandable k have "\<forall>j<k. \<exists>y. ?f (0 + j) (?ps ! j) = Inr y" by simp
    with k y(1) have "?qs ! k = y"
      by (intro run_entries_reached) simp_all
    with y show ?thesis by simp
  qed
  have "run_entries clean_entry 0 ?qs = run_entries clean_entry 0 ?ps"
    using len same by (intro run_entries_cong) simp_all
  moreover have "fst (snd (LoadLibraryPanelsForDashboard lps store dash)) = put_panels ?qs dash"
    using True online lib by (simp add: Load_dash)
  moreover have "panels_of (put_panels ?qs dash) = ?qs"
    using len by (simp add: panels_of_put_panels)
  ultimately have "CleanLibraryPanelsForDashboard lps
           (fst (snd (LoadLibraryPanelsForDashboard lps store dash))) =
         CleanLibraryPanelsForDashboard lps dash"
    using True by (simp add: Clean_enabled put_panels_put_panels)
  moreover have "fst (LoadLibraryPanelsForDashboard lps store dash) = None"
    using True online lib ok by (simp add: Load_fst)
  ultimately show ?thesis by simp
qed

theorem collapse_expand_roundtrip_witness:
  "fst (getLibraryPanelsForDashboardID store_abc
          (Id_dash (dashboard_of [entry_plain, entry_abc_current]))) =
     Inr [''abc'' \<mapsto> panel_abc] \<and>
   fst (LoadLibraryPanelsForDashboard lps_on store_abc
          (dashboard_of [entry_plain, entry_abc_current])) = None \<and>
   CleanLibraryPanelsForDashboard lps_on
     (fst (snd (LoadLibraryPanelsForDashboard lps_on store_abc
                  (dashboard_of [entry_plain, entry_abc_current])))) =
   CleanLibraryPanelsForDashboard lps_on (dashboard_of [entry_plain, entry_abc_current])"
proof -
  let ?d = "dashboard_of [entry_plain, entry_abc_current]"
  have "\<forall>p \<in> set (panels_of ?d). is_library_panel p \<longrightarrow>
           uid_of p \<noteq> [] \<and> name_of p \<noteq> [] \<and>
           (\<exists>n. Get ''id'' p = JNum n \<and> - (2 ^ 63) \<le> n \<and> n < 2 ^ 63) \<and>
           (\<exists>libraryPanelInDB model.
              [''abc'' \<mapsto> panel_abc] (uid_of p) = Some libraryPanelInDB \<and>
              Name libraryPanelInDB = name_of p \<and>
              Model libraryPanelInDB = Blob (JObj model))"
    by (simp add: panels_of_dashboard_of entry_plain_facts entry_abc_current_facts panel_abc_def)
  from collapse_expand_roundtrip [OF lookup_store_abc this, of lps_on]
    lookup_store_abc [of "[entry_plain, entry_abc_current]"]
  show ?thesis by simp
qed

text \<open>
  With only the uid required to be present in the lookup result, the round trip fails
  on the scenario of the specification itself: the entry carries "Old Name", the library
  panel is now called "New Name". Expand refreshes the name (lines 95-98), so Collapse
  after Expand stores "New Name", and Collapse alone stores "Old Name".
\<close>

theorem renamed_panel_breaks_roundtrip:
  "fst (getLibraryPanelsForDashboardID store_abc (Id_dash (dashboard_of [entry_abc]))) =
     Inr [''abc'' \<mapsto> panel_abc] \<and>
   panels_of (dashboard_of [entry_abc]) = [entry_abc] \<and>
   is_library_panel entry_abc \<and> uid_of entry_abc = ''abc'' \<and>
   [''abc'' \<mapsto> panel_abc] ''abc'' = Some panel_abc \<and>
   fst (LoadLibraryPanelsForDashboard lps_on store_abc (dashboard_of [entry_abc])) = None \<and>
   CleanLibraryPanelsForDashboard lps_on
     (fst (snd (LoadLibraryPanelsForDashboard lps_on store_abc (dashboard_of [entry_abc])))) =
     (None, dashboard_of [entry_abc_current]) \<and>
   CleanLibraryPanelsForDashboard lps_on (dashboard_of [entry_abc]) =
     (None, dashboard_of [entry_abc]) \<and>
   CleanLibraryPanelsForDashboard lps_on
     (fst (snd (LoadLibraryPanelsForDashboard lps_on store_abc (dashboard_of [entry_abc])))) \<noteq>
   CleanLibraryPanelsForDashboard lps_on (dashboard_of [entry_abc])"
  using entries_differ
  by (simp add: lookup_store_abc panels_of_dashboard_of entry_abc_facts Load_scenario
      Clean_scenario dashboard_of_eq)

section \<open>Linking\<close>

lemma connect_panels_Cons:
  "connect_panels c dashId (panel # panels) store =
     (if \<not> is_library_panel panel then connect_panels c dashId panels store
      else if uid_of panel = [] then (Some ErrNoUid, store)
      else case connectDashboard c (uid_of panel) dashId store of
             (Some err, store') \<Rightarrow> (Some err, store')
           | (None, store') \<Rightarrow> connect_panels c dashId panels store')"
  by (simp add: Let_def is_library_panel_def uid_of_def)

lemma linked_to_iff:
  "linked_to store dashboardID p \<longleftrightarrow>
     (ID p, dashboardID) \<in>
       set (map (\<lambda>r. (librarypanel_id r, dashboard_id r)) (library_panel_dashboard store))"
  by (force simp: linked_to_def)

lemma find_UID:
  "\<exists>lp \<in> set xs. UID lp = uid \<Longrightarrow> \<exists>lp. find (\<lambda>p. UID p = uid) xs = Some lp"
  by (cases "find (\<lambda>p. UID p = uid) xs") (auto simp: find_None_iff)

lemma connectDashboard_found:
  assumes "online store" and "find (\<lambda>p. UID p = uid) (library_panel store) = Some lp"
  shows "\<exists>store'. connectDashboard c uid dashId store = (None, store') \<and>
           online store' \<and> library_panel store' = library_panel store \<and>
           library_panel_dashboard store' =
             (if linked_to store dashId lp then library_panel_dashboard store
              else library_panel_dashboard store @
                     [\<lparr>librarypanel_id = ID lp, dashboard_id = dashId, created_by = UserId c\<rparr>])"
  using assms by (simp add: connectDashboard_def Let_def)

lemma one_row:
  "distinct (map f xs) \<Longrightarrow> y \<in> set (map f xs) \<Longrightarrow> length (filter (\<lambda>x. f x = y) xs) = 1"
proof (induction xs)
  case Nil
  then show ?case by simp
next
  case (Cons x xs)
  show ?case
  proof (cases "f x = y")
    case True
    with Cons.prems have "y \<notin> f ` set xs" by auto
    then have "filter (\<lambda>x. f x = y) xs = []"
      by (auto simp: filter_empty_conv)
    with True show ?thesis by simp
  next
    case False
    with Cons show ?thesis by auto
  qed
qed

lemma connect_panels_links:
  assumes "online store"
    and "\<forall>p \<in> set panels. is_library_panel p \<longrightarrow>
           uid_of p \<noteq> [] \<and> (\<exists>lp \<in> set (library_panel store). UID lp = uid_of p)"
    and "distinct (link_pairs store)"
  shows "\<exists>store'. connect_panels c dashId panels store = (None, store') \<and>
           online store' \<and> library_panel store' = library_panel store \<and>
           distinct (link_pairs store') \<and> set (link_pairs store) \<subseteq> set (link_pairs store') \<and>
           (\<forall>p \<in> set panels. is_library_panel p \<longrightarrow>
              (\<forall>lp. find (\<lambda>lp. UID lp = uid_of p) (library_panel store) = Some lp \<longrightarrow>
                    (ID lp, dashId) \<in> set (link_pairs store')))"
  using assms
proof (induction panels arbitrary: store)
  case Nil
  then show ?case by simp
next
  case (Cons p panels)
  show ?case
  proof (cases "is_library_panel p")
    case False
    from Cons.prems have "\<exists>store'. connect_panels c dashId panels store = (None, store') \<and>
           online store' \<and> library_panel store' = library_panel store \<and>
           distinct (link_pairs store') \<and> set (link_pairs store) \<subseteq> set (link_pairs store') \<and>
           (\<forall>p \<in> set panels. is_library_panel p \<longrightarrow>
              (\<forall>lp. find (\<lambda>lp. UID lp = uid_of p) (library_panel store) = Some lp \<longrightarrow>
                    (ID lp, dashId) \<in> set (link_pairs store')))"
      by (intro Cons.IH) simp_all
    with False show ?thesis
      by (auto simp: connect_panels_Cons simp del: connect_panels.simps(2))
  next
    case True
    with Cons.prems have uid: "uid_of p \<noteq> []"
      and "\<exists>lp \<in> set (library_panel store). UID lp = uid_of p" by simp_all
    then obtain lp where lp: "find (\<lambda>lp. UID lp = uid_of p) (library_panel store) = Some lp"
      using find_UID by blast
    from connectDashboard_found [OF Cons.prems(1) lp, of c dashId] obtain store1 where
      s1: "connectDashboard c (uid_of p) dashId store = (None, store1)"
        "online store1" "library_panel store1 = library_panel store"
        "library_panel_dashboard store1 =
           (if linked_to store dashId lp then library_panel_dashboard store
            else library_panel_dashboard store @
                   [\<lparr>librarypanel_id = ID lp, dashboard_id = dashId, created_by = UserId c\<rparr>])"
      by blast
    have d1: "distinct (link_pairs store1)" and sub1: "set (link_pairs store) \<subseteq> set (link_pairs store1)"
      and in1: "(ID lp, dashId) \<in> set (link_pairs store1)"
      using s1(4) Cons.prems(3) by (auto simp: linked_to_iff)
    have "\<exists>store'. connect_panels c dashId panels store1 = (None, store') \<and>
           online store' \<and> library_panel store' = library_panel store1 \<and>
           distinct (link_pairs store') \<and> set (link_pairs store1) \<subseteq> set (link_pairs store') \<and>
           (\<forall>p \<in> set panels. is_library_panel p \<longrightarrow>
              (\<forall>lp. find (\<lambda>lp. UID lp = uid_of p) (library_panel store1) = Some lp \<longrightarrow>
                    (ID lp, dashId) \<in> set (link_pairs store')))"
      using Cons.prems(2) s1(2,3) d1 by (intro Cons.IH) simp_all
    then obtain store' where
      s': "connect_panels c dashId panels store1 = (None, store')"
        "online store'" "library_panel store' = library_panel store1"
        "distinct (link_pairs store')" "set (link_pairs store1) \<subseteq> set (link_pairs store')"
        "\<forall>p \<in> set panels. is_library_panel p \<longrightarrow>
              (\<forall>lp. find (\<lambda>lp. UID lp = uid_of p) (library_panel store1) = Some lp \<longrightarrow>
                    (ID lp, dashId) \<in> set (link_pairs store'))"
      by blast
    have "connect_panels c dashId (p # panels) store = (None, store')"
      using True uid s1(1) s'(1) by (simp add: connect_panels_Cons del: connect_panels.simps(2))
    moreover have "(ID lp, dashId) \<in> set (link_pairs store')"
      using in1 s'(5) by blast
    ultimately show ?thesis
      using s' s1(3) sub1 lp by auto
  qed
qed

lemma connect_panels_again:
  assumes "online store"
    and "\<forall>p \<in> set panels. is_library_panel p \<longrightarrow>
           uid_of p \<noteq> [] \<and>
           (\<exists>lp. find (\<lambda>lp. UID lp = uid_of p) (library_panel store) = Some lp \<and>
                 (ID lp, dashId) \<in> set (link_pairs store))"
  shows "\<exists>store'. connect_panels c dashId panels store = (None, store') \<and>
           library_panel_dashboard store' = library_panel_dashboard store"
  using assms
proof (induction panels arbitrary: store)
  case Nil
  then show ?case by simp
next
  case (Cons p panels)
  show ?case
  proof (cases "is_library_panel p")
    case False
    with Cons.IH [of store] Cons.prems show ?thesis
      by (simp add: connect_panels_Cons del: connect_panels.simps(2))
  next
    case True
    with Cons.prems obtain lp where uid: "uid_of p \<noteq> []"
      and lp: "find (\<lambda>lp. UID lp = uid_of p) (library_panel store) = Some lp"
      and linked: "linked_to store dashId lp"
      by (auto simp: linked_to_iff)
    from connectDashboard_found [OF Cons.prems(1) lp, of c dashId] linked obtain store1 where
      s1: "connectDashboard c (uid_of p) dashId store = (None, store1)"
        "online store1" "library_panel store1 = library_panel store"
        "library_panel_dashboard store1 = library_panel_dashboard store"
      by auto
    from Cons.prems(2) s1(3,4)
    have "\<forall>p \<in> set panels. is_library_panel p \<longrightarrow>
           uid_of p \<noteq> [] \<and>
           (\<exists>lp. find (\<lambda>lp. UID lp = uid_of p) (library_panel store1) = Some lp \<and>
                 (ID lp, dashId) \<in> set (link_pairs store1))"
      by simp
    from Cons.IH [OF s1(2) this] obtain store' where
      "connect_panels c dashId panels store1 = (None, store')"
      "library_panel_dashboard store' = library_panel_dashboard store1"
      by blast
    with True uid s1 show ?thesis
      by (simp add: connect_panels_Cons del: connect_panels.simps(2))
  qed
qed

text \<open>
  C8 (as amended). With the feature enabled, Link is idempotent on a dashboard that can
  be linked: a saved dashboard (non-zero identifier, non-empty uid) whose library
  entries all have a non-empty uid naming a library panel of the store, with the
  database answering and the link table holding at most one row for each pair, as its
  unique index demands. Then Link succeeds, Link invoked again succeeds as well and
  leaves the link table as the first call left it, no pair has two rows, and each
  referenced (library panel, dashboard) pair has exactly one row.
\<close>

theorem link_twice_leaves_one_row:
  assumes "IsEnabled lps" and "Id_dash dash \<noteq> 0" and "Uid dash \<noteq> []" and "online store"
    and "\<forall>p \<in> set (panels_of dash). is_library_panel p \<longrightarrow>
           uid_of p \<noteq> [] \<and> (\<exists>lp \<in> set (library_panel store). UID lp = uid_of p)"
    and "distinct (link_pairs store)"
  shows "\<exists>store1 store2.
           ConnectLibraryPanelsForDashboard lps c store dash = (None, dash, store1) \<and>
           ConnectLibraryPanelsForDashboard lps c store1 dash = (None, dash, store2) \<and>
           library_panel_dashboard store2 = library_panel_dashboard store1 \<and>
           distinct (link_pairs store2) \<and>
           (\<forall>p \<in> set (panels_of dash). is_library_panel p \<longrightarrow>
              (\<forall>lp. find (\<lambda>lp. UID lp = uid_of p) (library_panel store) = Some lp \<longrightarrow>
                 length (filter (\<lambda>r. librarypanel_id r = ID lp \<and> dashboard_id r = Id_dash dash)
                           (library_panel_dashboard store2)) = 1))"
proof -
  let ?d = "Id_dash dash"
  have Connect: "ConnectLibraryPanelsForDashboard lps c s dash =
                   (fst (connect_panels c ?d (panels_of dash) s), dash,
                    snd (connect_panels c ?d (panels_of dash) s))" for s
    using assms(1-3)
    by (simp add: ConnectLibraryPanelsForDashboard_def panels_of_def Let_def split: prod.splits)
  from connect_panels_links [OF assms(4-6), of c ?d] obtain store1 where
    s1: "connect_panels c ?d (panels_of dash) store = (None, store1)"
      "online store1" "library_panel store1 = library_panel store"
      "distinct (link_pairs store1)"
      "\<forall>p \<in> set (panels_of dash). is_library_panel p \<longrightarrow>
              (\<forall>lp. find (\<lambda>lp. UID lp = uid_of p) (library_panel store) = Some lp \<longrightarrow>
                    (ID lp, ?d) \<in> set (link_pairs store1))"
    by blast
  have "\<forall>p \<in> set (panels_of dash). is_library_panel p \<longrightarrow>
           uid_of p \<noteq> [] \<and>
           (\<exists>lp. find (\<lambda>lp. UID lp = uid_of p) (library_panel store1) = Some lp \<and>
                 (ID lp, ?d) \<in> set (link_pairs store1))"
  proof (intro ballI impI)
    fix p assume p: "p \<in> set (panels_of dash)" "is_library_panel p"
    with assms(5) have uid: "uid_of p \<noteq> []"
      and "\<exists>lp \<in> set (library_panel store). UID lp = uid_of p" by auto
    then obtain lp where "find (\<lambda>lp. UID lp = uid_of p) (library_panel store) = Some lp"
      using find_UID by blast
    with s1(3,5) p uid
    show "uid_of p \<noteq> [] \<and>
           (\<exists>lp. find (\<lambda>lp. UID lp = uid_of p) (library_panel store1) = Some lp \<and>
                 (ID lp, ?d) \<in> set (link_pairs store1))"
      by auto
  qed
  from connect_panels_again [OF s1(2) this, of c] obtain store2 where
    s2: "connect_panels c ?d (panels_of dash) store1 = (None, store2)"
      "library_panel_dashboard store2 = library_panel_dashboard store1"
    by blast
  have "length (filter (\<lambda>r. librarypanel_id r = ID lp \<and> dashboard_id r = ?d)
                  (library_panel_dashboard store2)) = 1"
    if "p \<in> set (panels_of dash)" "is_library_panel p"
      "find (\<lambda>lp. UID lp = uid_of p) (library_panel store) = Some lp" for p lp
  proof -
    from that s1(5) have "(ID lp, ?d) \<in> set (link_pairs store1)" by blast
    with s1(4)
    have "length (filter (\<lambda>r. (librarypanel_id r, dashboard_id r) = (ID lp, ?d))
                    (library_panel_dashboard store1)) = 1"
      by (rule one_row)
    with s2(2) show ?thesis by simp
  qed
  with s1 s2 Connect show ?thesis
    by (intro exI [of _ store1] exI [of _ store2]) simp
qed

theorem link_twice_leaves_one_row_witness:
  "IsEnabled lps_on \<and> online store_unlinked \<and> distinct (link_pairs store_unlinked) \<and>
   fst (ConnectLibraryPanelsForDashboard lps_on admin store_unlinked
          (dashboard_of [entry_plain, entry_abc])) = None \<and>
   fst (ConnectLibraryPanelsForDashboard lps_on admin
          (snd (snd (ConnectLibraryPanelsForDashboard lps_on admin store_unlinked
                       (dashboard_of [entry_plain, entry_abc]))))
          (dashboard_of [entry_plain, entry_abc])) = None \<and>
   length (filter (\<lambda>r. librarypanel_id r = ID panel_abc \<and> dashboard_id r = 7)
             (library_panel_dashboard
                (snd (snd (ConnectLibraryPanelsForDashboard lps_on admin
                   (snd (snd (ConnectLibraryPanelsForDashboard lps_on admin store_unlinked
                                (dashboard_of [entry_plain, entry_abc]))))
                   (dashboard_of [entry_plain, entry_abc])))))) = 1"
proof -
  let ?d = "dashboard_of [entry_plain, entry_abc]"
  have h2: "Id_dash ?d \<noteq> 0" and h3: "Uid ?d \<noteq> []"
    by (simp_all add: Id_dashboard_of Uid_dashboard_of)
  have h4: "online store_unlinked"
    by (simp add: store_unlinked_facts)
  have h5: "\<forall>p \<in> set (panels_of ?d). is_library_panel p \<longrightarrow>
      uid_of p \<noteq> [] \<and> (\<exists>lp \<in> set (library_panel store_unlinked). UID lp = uid_of p)"
    by (simp add: panels_of_dashboard_of entry_plain_facts entry_abc_facts store_unlinked_facts
        panel_abc_def)
  have h6: "distinct (link_pairs store_unlinked)"
    by (simp add: store_unlinked_facts)
  from link_twice_leaves_one_row [OF IsEnabled_lps_on h2 h3 h4 h5 h6, of admin]
  obtain store1 store2 where
    first: "ConnectLibraryPanelsForDashboard lps_on admin store_unlinked ?d = (None, ?d, store1)"
    and second: "ConnectLibraryPanelsForDashboard lps_on admin store1 ?d = (None, ?d, store2)"
    and rows: "\<forall>p \<in> set (panels_of ?d). is_library_panel p \<longrightarrow>
         (\<forall>lp. find (\<lambda>lp. UID lp = uid_of p) (library_panel store_unlinked) = Some lp \<longrightarrow>
            length (filter (\<lambda>r. librarypanel_id r = ID lp \<and> dashboard_id r = Id_dash ?d)
                      (library_panel_dashboard store2)) = 1)"
    by blast
  have "entry_abc \<in> set (panels_of ?d)" "is_library_panel entry_abc"
    "find (\<lambda>lp. UID lp = uid_of entry_abc) (library_panel store_unlinked) = Some panel_abc"
    by (simp_all add: panels_of_dashboard_of entry_abc_facts store_unlinked_facts panel_abc_def)
  with rows have "length (filter (\<lambda>r. librarypanel_id r = ID panel_abc \<and> dashboard_id r = 7)
                       (library_panel_dashboard store2)) = 1"
    by (auto simp: Id_dashboard_of)
  with first second IsEnabled_lps_on h4 h6 show ?thesis
    by simp
qed

text \<open>
  Without these conditions the statement fails. With the feature disabled (lines
  145-147) Link on the saved dashboard \<open>[entry_abc]\<close> returns no error, twice, and
  the link table stays empty: there is no row for the pair, not one. With the feature
  enabled Link does not succeed on an unsaved dashboard (line 149), on an entry without
  uid (line 163), on a uid that names no library panel, or when the database does not
  answer (line 166).
\<close>

theorem link_needs_feature_and_linkable_dashboard:
  "\<not> IsEnabled lps_off \<and>
   is_library_panel entry_abc \<and> uid_of entry_abc = ''abc'' \<and> UID panel_abc = ''abc'' \<and>
   library_panel store_unlinked = [panel_abc] \<and>
   ConnectLibraryPanelsForDashboard lps_off admin store_unlinked (dashboard_of [entry_abc]) =
     (None, dashboard_of [entry_abc], store_unlinked) \<and>
   ConnectLibraryPanelsForDashboard lps_off admin
     (snd (snd (ConnectLibraryPanelsForDashboard lps_off admin store_unlinked
                  (dashboard_of [entry_abc]))))
     (dashboard_of [entry_abc]) =
     (None, dashboard_of [entry_abc], store_unlinked) \<and>
   library_panel_dashboard store_unlinked = [] \<and>
   fst (ConnectLibraryPanelsForDashboard lps_on admin store_unlinked unsaved_dashboard) =
     Some ErrMissingID \<and>
   fst (ConnectLibraryPanelsForDashboard lps_on admin store_unlinked
          (dashboard_of [entry_no_uid])) = Some ErrNoUid \<and>
   fst (ConnectLibraryPanelsForDashboard lps_on admin store_unlinked
          (dashboard_of [entry_dangling])) = Some ErrPanelNotFound \<and>
   fst (ConnectLibraryPanelsForDashboard lps_on admin store_offline
          (dashboard_of [entry_abc])) = Some ErrStore"
proof -
  have off: "\<not> IsEnabled lps_off"
    by (simp add: IsEnabled_def lps_off_def)
  have disabled: "ConnectLibraryPanelsForDashboard lps_off admin store_unlinked
      (dashboard_of [entry_abc]) = (None, dashboard_of [entry_abc], store_unlinked)"
    using off by (simp add: ConnectLibraryPanelsForDashboard_def)
  have unsaved: "fst (ConnectLibraryPanelsForDashboard lps_on admin store_unlinked
      unsaved_dashboard) = Some ErrMissingID"
    by (simp add: ConnectLibraryPanelsForDashboard_def IsEnabled_lps_on unsaved_dashboard_def)
  have loop: "ConnectLibraryPanelsForDashboard lps_on admin s (dashboard_of es) =
      (fst (connect_panels admin 7 es s), dashboard_of es, snd (connect_panels admin 7 es s))"
    for s es
    by (simp add: ConnectLibraryPanelsForDashboard_def IsEnabled_lps_on Id_dashboard_of
        Uid_dashboard_of panels_of_dashboard_of [unfolded panels_of_def] Let_def
        split: prod.splits)
  have no_uid: "fst (connect_panels admin 7 [entry_no_uid] store_unlinked) = Some ErrNoUid"
    by (simp add: connect_panels_Cons entry_no_uid_facts del: connect_panels.simps(2))
  have not_found:
    "fst (connect_panels admin 7 [entry_dangling] store_unlinked) = Some ErrPanelNotFound"
    by (simp add: connect_panels_Cons entry_dangling_facts connectDashboard_def Let_def
        store_unlinked_facts panel_abc_def del: connect_panels.simps(2))
  have offline: "fst (connect_panels admin 7 [entry_abc] store_offline) = Some ErrStore"
    by (simp add: connect_panels_Cons entry_abc_facts connectDashboard_def Let_def
        store_offline_def del: connect_panels.simps(2))
  show ?thesis
    using off unsaved no_uid not_found offline
    by (simp add: disabled loop entry_abc_facts store_unlinked_facts panel_abc_def)
qed

text \<open>What the two calls leave in the link table of the example.\<close>

lemma link_example:
  "ConnectLibraryPanelsForDashboard lps_on admin store_unlinked
     (dashboard_of [entry_plain, entry_abc]) =
   (None, dashboard_of [entry_plain, entry_abc],
    store_unlinked\<lparr>accesses := [UpsertLink ''abc'' 7],
      library_panel_dashboard := [\<lparr>librarypanel_id = 11, dashboard_id = 7, created_by = 1\<rparr>]\<rparr>)"
  by (simp add: ConnectLibraryPanelsForDashboard_def IsEnabled_lps_on Id_dashboard_of
      Uid_dashboard_of panels_of_dashboard_of [unfolded panels_of_def] connect_panels_Cons
      entry_plain_facts entry_abc_facts connectDashboard_def store_unlinked_def linked_to_def
      panel_abc_def admin_def Let_def del: connect_panels.simps(2))

end
